theory Spec2Isabelle
  imports Main "HOL-Library.Sublist" "HOL-Library.Word"
begin

section \<open>Stream reconciler (src/run/streaming.ts)\<close>

text \<open>
  A JavaScript string is modelled as a \<open>string\<close>: one \<open>char\<close> of the model stands for one
  code unit of the source string, so \<open>length\<close> is \<open>.length\<close>, \<open>drop n\<close> is \<open>.slice(n)\<close>,
  \<open>take n\<close> is \<open>.slice(0, n)\<close> and \<open>prefix p s\<close> is \<open>s.startsWith(p)\<close>. The reconciler only
  tells carriage return and line feed apart from the other code units; everything else is
  compared for equality.
\<close>

definition CR :: char where
  "CR = CHR 0x0D"

definition LF :: char where
  "LF = CHR 0x0A"

text \<open>\<open>input.replace(/\r\n?/g, '\n')\<close>: every CR, together with an LF that directly follows
  it, becomes one LF.\<close>

fun normalizeStreamText :: "string \<Rightarrow> string" where
  "normalizeStreamText [] = []"
| "normalizeStreamText [c] = (if c = CR then [LF] else [c])"
| "normalizeStreamText (c # d # cs) =
     (if c = CR then
        (if d = LF then LF # normalizeStreamText cs
         else LF # normalizeStreamText (d # cs))
      else c # normalizeStreamText (d # cs))"

text \<open>The \<open>for\<close> loop of \<open>commonPrefixLength\<close>: \<open>i\<close> runs upwards while \<open>i < max\<close> and the
  two strings agree at \<open>i\<close>. The indices read are below both lengths.\<close>

function commonPrefixLoop :: "string \<Rightarrow> string \<Rightarrow> nat \<Rightarrow> nat \<Rightarrow> nat" where
  "commonPrefixLoop a b mx i =
     (if i < mx then (if a ! i \<noteq> b ! i then i else commonPrefixLoop a b mx (i + 1))
      else i)"
  by pat_completeness auto
termination
  by (relation "measure (\<lambda>(a, b, mx, i). mx - i)") auto

declare commonPrefixLoop.simps [simp del]

definition commonPrefixLength :: "string \<Rightarrow> string \<Rightarrow> nat \<Rightarrow> nat" where
  "commonPrefixLength a b limit =
     commonPrefixLoop a b (min (min (length a) (length b)) limit) 0"

record merged =
  "next" :: string
  appended :: string

text \<open>The overlap loop, \<open>len\<close> running from \<open>maxOverlap\<close> down to 1, followed by the final
  fallback return. \<open>prev.slice(-len)\<close> is the last \<open>len\<close> code units of \<open>prev\<close>.\<close>

fun overlapLoop :: "string \<Rightarrow> string \<Rightarrow> nat \<Rightarrow> merged" where
  "overlapLoop prev nextChunk 0 = \<lparr>next = prev @ nextChunk, appended = nextChunk\<rparr>"
| "overlapLoop prev nextChunk (Suc n) =
     (if drop (length prev - Suc n) prev = take (Suc n) nextChunk
      then \<lparr>next = prev @ drop (Suc n) nextChunk, appended = drop (Suc n) nextChunk\<rparr>
      else overlapLoop prev nextChunk n)"

text \<open>
  \<open>Math.max(prev.length - 64, Math.floor(prev.length * 0.9))\<close>. The first operand can be
  negative, so the value is an \<open>int\<close>. For a string length \<open>n\<close> (below \<open>2^53\<close>) the double
  product \<open>n * 0.9\<close> is off from \<open>9n/10\<close> by far less than \<open>1/10\<close> and is exact when \<open>9n/10\<close> is
  an integer, so its floor is \<open>9 * n div 10\<close>.
\<close>

definition minPrefix :: "nat \<Rightarrow> int" where
  "minPrefix n = max (int n - 64) (int (9 * n div 10))"

definition mergeStreamingChunk :: "string \<Rightarrow> string \<Rightarrow> merged" where
  "mergeStreamingChunk previous chunk =
     (if chunk = [] then \<lparr>next = previous, appended = []\<rparr>
      else
        let prev = normalizeStreamText previous;
            nextChunk = normalizeStreamText chunk
        in
          if prev = [] then \<lparr>next = nextChunk, appended = nextChunk\<rparr>
          else if prefix prev nextChunk
          then \<lparr>next = nextChunk, appended = drop (length prev) nextChunk\<rparr>
          else if prefix nextChunk prev then \<lparr>next = prev, appended = []\<rparr>
          else
            let prefixLen = commonPrefixLength prev nextChunk 4096 in
            if length prev \<le> length nextChunk \<and> 0 < prefixLen
               \<and> minPrefix (length prev) \<le> int prefixLen
            then \<lparr>next = nextChunk, appended = drop prefixLen nextChunk\<rparr>
            else overlapLoop prev nextChunk
                   (min (min (length prev) (length nextChunk)) 2048))"

text \<open>Merging a whole stream: the accumulated text starts empty and every chunk is merged
  into the \<open>next\<close> of the step before.\<close>

definition mergeAll :: "string list \<Rightarrow> string" where
  "mergeAll chunks = foldl (\<lambda>acc chunk. next (mergeStreamingChunk acc chunk)) [] chunks"

text \<open>
  When does a chunk that is a true delta get stitched instead of appended? Exactly when one
  of the heuristics of \<open>mergeStreamingChunk\<close> fires on it: it extends the accumulated text,
  it is a prefix of the accumulated text, it shares a long enough prefix with it, or some
  suffix of the accumulated text (of length \<open>1\<close> to \<open>2048\<close>) is a prefix of the chunk.
\<close>

definition overlapsAt :: "string \<Rightarrow> string \<Rightarrow> nat \<Rightarrow> bool" where
  "overlapsAt prev chunk len \<longleftrightarrow> drop (length prev - len) prev = take len chunk"

definition stitched :: "string \<Rightarrow> string \<Rightarrow> bool" where
  "stitched prev chunk \<longleftrightarrow>
     prefix prev chunk \<or> prefix chunk prev
     \<or> (length prev \<le> length chunk \<and> 0 < commonPrefixLength prev chunk 4096
         \<and> minPrefix (length prev) \<le> int (commonPrefixLength prev chunk 4096))
     \<or> list_ex (overlapsAt prev chunk)
          [1 ..< Suc (min (min (length prev) (length chunk)) 2048)]"

fun pureDeltaSafe :: "string \<Rightarrow> string list \<Rightarrow> bool" where
  "pureDeltaSafe acc [] = True"
| "pureDeltaSafe acc (d # ds) =
     ((d = [] \<or> acc = [] \<or> \<not> stitched acc d) \<and> pureDeltaSafe (acc @ d) ds)"

text \<open>One step of \<open>mergeAll\<close>.\<close>

definition mergeStep :: "string \<Rightarrow> string \<Rightarrow> string" where
  "mergeStep acc chunk = next (mergeStreamingChunk acc chunk)"

section \<open>JavaScript values used by the resolvers\<close>

text \<open>
  A \<open>string | null\<close> is a \<open>string option\<close>. JavaScript treats \<open>null\<close> and the empty string
  as false in a condition; \<open>truthy\<close> is that test.
\<close>

fun truthy :: "string option \<Rightarrow> bool" where
  "truthy None = False"
| "truthy (Some s) = (s \<noteq> [])"

text \<open>\<open>String.prototype.trim\<close> on the code units a \<open>char\<close> can hold: tab, line feed, vertical
  tab, form feed, carriage return, space and no-break space.\<close>

definition isJsSpace :: "char \<Rightarrow> bool" where
  "isJsSpace c \<longleftrightarrow> (of_char c :: nat) \<in> {9, 10, 11, 12, 13, 32, 160}"

definition trim :: "string \<Rightarrow> string" where
  "trim s = rev (dropWhile isJsSpace (rev (dropWhile isJsSpace s)))"

text \<open>\<open>toLowerCase\<close> on the same range: the letters A to Z and the upper-case letters of
  Latin-1 move up by 32, which sets bit 5 of the code unit.\<close>

definition toLowerChar :: "char \<Rightarrow> char" where
  "toLowerChar c =
     (let n = (of_char c :: nat)
      in if (65 \<le> n \<and> n \<le> 90) \<or> (192 \<le> n \<and> n \<le> 222 \<and> n \<noteq> 215)
         then Char (digit0 c) (digit1 c) (digit2 c) (digit3 c) (digit4 c) True
                (digit6 c) (digit7 c)
         else c)"

definition toLowerCase :: "string \<Rightarrow> string" where
  "toLowerCase s = map toLowerChar s"

text \<open>\<open>s.includes(t)\<close>.\<close>

fun strIncludes :: "string \<Rightarrow> string \<Rightarrow> bool" where
  "strIncludes [] t = (t = [])"
| "strIncludes (c # cs) t = (prefix t (c # cs) \<or> strIncludes cs t)"

text \<open>\<open>xs.join(sep)\<close>.\<close>

fun joinWith :: "string \<Rightarrow> string list \<Rightarrow> string" where
  "joinWith sep [] = []"
| "joinWith sep [x] = x"
| "joinWith sep (x # y # ys) = x @ sep @ joinWith sep (y # ys)"

text \<open>A natural number in a template string: its decimal digits.\<close>

fun digitsOf :: "nat \<Rightarrow> string" where
  "digitsOf n =
     (if n < 10 then [''0123456789'' ! n]
      else digitsOf (n div 10) @ [''0123456789'' ! (n mod 10)])"

declare digitsOf.simps [simp del]

text \<open>An \<open>Error\<close> is its message. \<open>wrapError(prefix, error)\<close> builds the message
  \<open>prefix: message\<close>.\<close>

datatype Error = Error (message: string)

definition wrapError :: "string \<Rightarrow> Error \<Rightarrow> Error" where
  "wrapError pfx e = Error (pfx @ '': '' @ message e)"

text \<open>What an \<open>async\<close> function does when it settles: it returns a value or it throws.\<close>

datatype 'a outcome = Returned 'a | Thrown Error

section \<open>Whisper transcription engine (src/transcription/whisper.ts)\<close>

type_synonym bytes = "8 word list"

definition MAX_OPENAI_UPLOAD_BYTES :: nat where
  "MAX_OPENAI_UPLOAD_BYTES = 24 * 1024 * 1024"

definition DEFAULT_SEGMENT_SECONDS :: nat where
  "DEFAULT_SEGMENT_SECONDS = 600"

datatype TranscriptionProvider = Openai | Fal | WhisperCpp

record WhisperTranscriptionResult =
  "text" :: "string option"
  provider :: "TranscriptionProvider option"
  error :: "Error option"
  "notes" :: "string list"

text \<open>
  The engine reads the environment, spawns \<open>whisper-cli\<close> and \<open>ffmpeg\<close>, and posts to two
  remote services. Each of these is a field of \<open>WhisperDeps\<close>: what the environment answers.
  A subprocess or request either fails with an error (\<open>Inl\<close>) or yields its output (\<open>Inr\<close>).
  A file is modelled by its content, so a function of the source that takes a path takes
  the bytes here; the temporary files the engine writes and removes are private to a call
  and their writes are taken to succeed. The environment answers the same way throughout
  one call. Progress callbacks do not influence the result and are left out.
  \<open>formatBytes\<close> formats a floating-point quotient and is a parameter as well.

  \<^item> \<open>whisperCppDisabledEnv\<close>: the value of \<open>SUMMARIZE_DISABLE_LOCAL_WHISPER_CPP\<close>;
  \<^item> \<open>isWhisperCliAvailable\<close>: whether \<open>whisper-cli --help\<close> exits with 0;
  \<^item> \<open>resolveWhisperCppModelPath\<close>: the model file found, if any;
  \<^item> \<open>isFfmpegAvailable\<close>: whether \<open>ffmpeg -version\<close> exits with 0;
  \<^item> \<open>runFfmpegTranscodeToMp3\<close>, \<open>runFfmpegTranscodeToMp3Lenient\<close>: the MP3 written;
  \<^item> \<open>runWhisperCli\<close>: the content of the text file \<open>whisper-cli\<close> wrote for a model and an
    input (empty when the file cannot be read);
  \<^item> \<open>transcribeWithOpenAi\<close>, \<open>transcribeWithFal\<close>: the trimmed text of the response, or
    \<open>null\<close>;
  \<^item> \<open>runFfmpegSegment\<close>: the directory after segmenting, as names with contents.
\<close>

record WhisperDeps =
  whisperCppDisabledEnv :: "string option"
  isWhisperCliAvailable :: bool
  resolveWhisperCppModelPath :: "string option"
  isFfmpegAvailable :: bool
  runFfmpegTranscodeToMp3 :: "bytes \<Rightarrow> Error + bytes"
  runFfmpegTranscodeToMp3Lenient :: "bytes \<Rightarrow> Error + bytes"
  runWhisperCli :: "string \<Rightarrow> bytes \<Rightarrow> Error + string"
  transcribeWithOpenAi :: "bytes \<Rightarrow> string \<Rightarrow> string option \<Rightarrow> string \<Rightarrow> Error + string option"
  transcribeWithFal :: "bytes \<Rightarrow> string \<Rightarrow> string \<Rightarrow> Error + string option"
  runFfmpegSegment :: "bytes \<Rightarrow> nat \<Rightarrow> Error + (string \<times> bytes) list"
  formatBytes :: "nat \<Rightarrow> string"

text \<open>The key of a credential that has been tested to be truthy.\<close>

fun keyOf :: "string option \<Rightarrow> string" where
  "keyOf None = []"
| "keyOf (Some k) = k"

definition isWhisperCppEnabled :: "WhisperDeps \<Rightarrow> bool" where
  "isWhisperCppEnabled deps \<longleftrightarrow>
     trim (case whisperCppDisabledEnv deps of None \<Rightarrow> [] | Some v \<Rightarrow> v) \<noteq> ''1''"

definition isWhisperCppReady :: "WhisperDeps \<Rightarrow> bool" where
  "isWhisperCppReady deps \<longleftrightarrow>
     (if \<not> isWhisperCppEnabled deps then False
      else if \<not> isWhisperCliAvailable deps then False
      else truthy (resolveWhisperCppModelPath deps))"

text \<open>\<open>modelPath.split('/').pop()\<close>: what follows the last slash.\<close>

definition lastPathSegment :: "string \<Rightarrow> string" where
  "lastPathSegment p = rev (takeWhile (\<lambda>c. c \<noteq> CHR ''/'') (rev p))"

definition stripPrefix :: "string \<Rightarrow> string \<Rightarrow> string" where
  "stripPrefix p s = (if prefix p s then drop (length p) s else s)"

text \<open>\<open>s.replace(/x$/i, '')\<close> for a lower-case literal \<open>x\<close>.\<close>

definition stripSuffixIgnoreCase :: "string \<Rightarrow> string \<Rightarrow> string" where
  "stripSuffixIgnoreCase x s =
     (if suffix x (toLowerCase s) then take (length s - length x) s else s)"

definition resolveWhisperCppModelLabelFromPath :: "string \<Rightarrow> string" where
  "resolveWhisperCppModelLabelFromPath modelPath =
     (let base = lastPathSegment modelPath;
          name = trim (stripSuffixIgnoreCase ''.en''
                   (stripSuffixIgnoreCase ''.bin'' (stripPrefix ''ggml-'' base)))
      in if name \<noteq> [] then name else base)"

definition isWhisperCppSupportedMediaType :: "string \<Rightarrow> bool" where
  "isWhisperCppSupportedMediaType mediaType \<longleftrightarrow>
     trim (takeWhile (\<lambda>c. c \<noteq> CHR '';'') (toLowerCase mediaType))
       \<in> set [''audio/mpeg'', ''audio/mp3'', ''audio/mpga'', ''audio/ogg'', ''audio/oga'',
               ''application/ogg'', ''audio/flac'', ''audio/x-wav'', ''audio/wav'']"

text \<open>The transcode in front of \<open>whisper-cli\<close>: strict first, lenient when strict fails. A
  failure of the lenient transcode is thrown. The result is the input for \<open>whisper-cli\<close>
  and the notes pushed.\<close>

definition prepareWhisperCppInput :: "WhisperDeps \<Rightarrow> bytes \<Rightarrow> bool \<Rightarrow> Error + (bytes \<times> string list)" where
  "prepareWhisperCppInput deps fileBytes canUseDirectly =
     (if canUseDirectly then Inr (fileBytes, [])
      else case runFfmpegTranscodeToMp3 deps fileBytes of
             Inr mp3 \<Rightarrow> Inr (mp3, [''whisper.cpp: transcoded media to MP3 via ffmpeg''])
           | Inl e \<Rightarrow>
               (case runFfmpegTranscodeToMp3Lenient deps fileBytes of
                  Inl e2 \<Rightarrow> Inl e2
                | Inr mp3 \<Rightarrow>
                    Inr (mp3, [''whisper.cpp: transcoded media to MP3 via ffmpeg (lenient)'',
                               ''whisper.cpp: strict transcode failed: ''
                                 @ message (wrapError ''ffmpeg'' e)])))"

definition modelNotFound :: WhisperTranscriptionResult where
  "modelNotFound =
     \<lparr>text = None, provider = None,
      error = Some (Error ''whisper.cpp model not found (set SUMMARIZE_WHISPER_CPP_MODEL_PATH)''),
      notes = []\<rparr>"

definition transcribeWithWhisperCppFile ::
    "WhisperDeps \<Rightarrow> bytes \<Rightarrow> string \<Rightarrow> WhisperTranscriptionResult outcome" where
  "transcribeWithWhisperCppFile deps fileBytes mediaType =
     (case resolveWhisperCppModelPath deps of
        None \<Rightarrow> Returned modelNotFound
      | Some modelPath \<Rightarrow>
          if modelPath = [] then Returned modelNotFound
          else
            let canUseDirectly = isWhisperCppSupportedMediaType mediaType;
                canTranscode = (\<not> canUseDirectly \<and> isFfmpegAvailable deps)
            in
              if \<not> canUseDirectly \<and> \<not> canTranscode then
                Returned \<lparr>text = None, provider = Some WhisperCpp,
                  error = Some (Error (''whisper.cpp supports only flac/mp3/ogg/wav (mediaType=''
                            @ mediaType @ ''); install ffmpeg to transcode'')),
                  notes = []\<rparr>
              else
                case prepareWhisperCppInput deps fileBytes canUseDirectly of
                  Inl e \<Rightarrow> Thrown e
                | Inr (input, notes0) \<Rightarrow>
                    (case runWhisperCli deps modelPath input of
                       Inl e \<Rightarrow>
                         Returned \<lparr>text = None, provider = Some WhisperCpp,
                           error = Some (wrapError ''whisper.cpp failed'' e), notes = notes0\<rparr>
                     | Inr raw \<Rightarrow>
                         let trimmed = trim raw in
                         if trimmed = [] then
                           Returned \<lparr>text = None, provider = Some WhisperCpp,
                             error = Some (Error ''whisper.cpp returned empty text''),
                             notes = notes0\<rparr>
                         else
                           Returned \<lparr>text = Some trimmed, provider = Some WhisperCpp,
                             error = None,
                             notes = notes0 @ [''whisper.cpp: model=''
                                       @ resolveWhisperCppModelLabelFromPath modelPath]\<rparr>))"

text \<open>
  Both entry points start with the same local attempt: \<open>transcribeWithWhisperCppFile\<close>
  inside a \<open>try\<close> whose \<open>catch\<close> turns a thrown error into a result. When the attempt has no
  text, its notes are kept and a fallback note is pushed for its error.
\<close>

definition localAttempt :: "WhisperDeps \<Rightarrow> bytes \<Rightarrow> string \<Rightarrow> WhisperTranscriptionResult" where
  "localAttempt deps fileBytes mediaType =
     (case transcribeWithWhisperCppFile deps fileBytes mediaType of
        Returned r \<Rightarrow> r
      | Thrown e \<Rightarrow>
          \<lparr>text = None, provider = Some WhisperCpp,
           error = Some (wrapError ''whisper.cpp failed'' e), notes = []\<rparr>)"

definition localFallbackNotes :: "WhisperTranscriptionResult \<Rightarrow> string list" where
  "localFallbackNotes local =
     notes local @
       (case error local of
          None \<Rightarrow> []
        | Some e \<Rightarrow> [''whisper.cpp failed; falling back to remote Whisper: '' @ message e])"

text \<open>The notes of a call once the local stage is over without a result.\<close>

definition notesAfterLocal :: "WhisperDeps \<Rightarrow> bytes \<Rightarrow> string \<Rightarrow> string list" where
  "notesAfterLocal deps fileBytes mediaType =
     (if isWhisperCppReady deps then localFallbackNotes (localAttempt deps fileBytes mediaType)
      else [])"

definition noProvidersAvailable :: "string list \<Rightarrow> WhisperTranscriptionResult" where
  "noProvidersAvailable ns =
     \<lparr>text = None, provider = None,
      error = Some (Error (''No transcription providers available ''
                @ ''(install whisper-cpp or set OPENAI_API_KEY or FAL_KEY)'')),
      notes = ns\<rparr>"

definition shouldRetryOpenAiViaFfmpeg :: "Error \<Rightarrow> bool" where
  "shouldRetryOpenAiViaFfmpeg e \<longleftrightarrow>
     (let msg = toLowerCase (message e)
      in strIncludes msg ''unrecognized file format''
         \<or> strIncludes msg ''could not be decoded''
         \<or> strIncludes msg ''format is not supported'')"

definition transcodeBytesToMp3 :: "WhisperDeps \<Rightarrow> bytes \<Rightarrow> Error + bytes" where
  "transcodeBytesToMp3 deps input =
     (case runFfmpegTranscodeToMp3 deps input of
        Inr mp3 \<Rightarrow> Inr mp3
      | Inl e \<Rightarrow> runFfmpegTranscodeToMp3Lenient deps input)"

text \<open>
  The retry after OpenAI rejected the format. \<open>Inl\<close> is a result returned from inside the
  stage; \<open>Inr\<close> carries on with \<open>openaiError\<close>, \<open>bytes\<close>, \<open>mediaType\<close> and \<open>notes\<close> as the
  stage leaves them. When the transcode or the second request throws, the assignments after
  them are not reached and the first error stays.
\<close>

definition retryStage ::
    "WhisperDeps \<Rightarrow> bytes \<Rightarrow> string \<Rightarrow> string option \<Rightarrow> Error option \<Rightarrow> string list
     \<Rightarrow> WhisperTranscriptionResult + (Error option \<times> bytes \<times> string \<times> string list)" where
  "retryStage deps input mediaType openaiApiKey openaiError ns =
     (case openaiError of
        None \<Rightarrow> Inr (None, input, mediaType, ns)
      | Some e \<Rightarrow>
          if truthy openaiApiKey \<and> shouldRetryOpenAiViaFfmpeg e then
            if isFfmpegAvailable deps then
              let ns1 = ns @ [''OpenAI could not decode media; transcoding via ffmpeg and retrying''];
                  failed = (\<lambda>err. Inr (Some e, input, mediaType,
                     ns1 @ [''ffmpeg transcode failed; cannot retry OpenAI decode error: ''
                            @ message err]))
              in
                case transcodeBytesToMp3 deps input of
                  Inl err \<Rightarrow> failed err
                | Inr mp3Bytes \<Rightarrow>
                    (case transcribeWithOpenAi deps mp3Bytes ''audio/mpeg'' (Some ''audio.mp3'')
                            (keyOf openaiApiKey) of
                       Inl err \<Rightarrow> failed err
                     | Inr retried \<Rightarrow>
                         if truthy retried then
                           Inl \<lparr>text = retried, provider = Some Openai, error = None,
                                notes = ns1\<rparr>
                         else
                           Inr (Some (Error
                                  ''OpenAI transcription returned empty text after ffmpeg transcode''),
                                mp3Bytes, ''audio/mpeg'', ns1))
            else
              Inr (Some e, input, mediaType,
                   ns @ [''OpenAI could not decode media; install ffmpeg to enable transcoding retry''])
          else Inr (Some e, input, mediaType, ns))"

definition falStage ::
    "WhisperDeps \<Rightarrow> bytes \<Rightarrow> string \<Rightarrow> string option \<Rightarrow> string option \<Rightarrow> Error option
     \<Rightarrow> string list \<Rightarrow> WhisperTranscriptionResult" where
  "falStage deps input mediaType openaiApiKey falApiKey openaiError ns =
     (let canUseFal = (truthy falApiKey \<and> prefix ''audio/'' (toLowerCase mediaType));
          ns1 = ns @ (case openaiError of
                        None \<Rightarrow> []
                      | Some e \<Rightarrow>
                          if canUseFal
                          then [''OpenAI transcription failed; falling back to FAL: '' @ message e]
                          else []);
          ns2 = ns1 @ (if truthy falApiKey \<and> \<not> canUseFal
                       then [''Skipping FAL transcription: unsupported mediaType '' @ mediaType]
                       else [])
      in
        if truthy falApiKey \<and> canUseFal then
          (case transcribeWithFal deps input mediaType (keyOf falApiKey) of
             Inr t \<Rightarrow>
               if truthy t then \<lparr>text = t, provider = Some Fal, error = None, notes = ns2\<rparr>
               else \<lparr>text = None, provider = Some Fal,
                      error = Some (Error ''FAL transcription returned empty text''), notes = ns2\<rparr>
           | Inl e \<Rightarrow>
               \<lparr>text = None, provider = Some Fal,
                error = Some (wrapError ''FAL transcription failed'' e), notes = ns2\<rparr>)
        else
          \<lparr>text = None,
           provider = (if truthy openaiApiKey then Some Openai else None),
           error = Some (case openaiError of
                           Some e \<Rightarrow> e
                         | None \<Rightarrow> Error ''No transcription providers available''),
           notes = ns2\<rparr>)"

text \<open>The remote part of \<open>transcribeMediaWithWhisper\<close>: OpenAI, the retry, then FAL. Every
  request is inside a \<open>try\<close>, so this part always returns.\<close>

definition remoteChain ::
    "WhisperDeps \<Rightarrow> bytes \<Rightarrow> string \<Rightarrow> string option \<Rightarrow> string option \<Rightarrow> string option
     \<Rightarrow> string list \<Rightarrow> WhisperTranscriptionResult" where
  "remoteChain deps input mediaType filename openaiApiKey falApiKey ns =
     (let first =
            (if truthy openaiApiKey then
               (case transcribeWithOpenAi deps input mediaType filename (keyOf openaiApiKey) of
                  Inr t \<Rightarrow>
                    if truthy t then Inl t
                    else Inr (Some (Error ''OpenAI transcription returned empty text''))
                | Inl e \<Rightarrow> Inr (Some (wrapError ''OpenAI transcription failed'' e)))
             else Inr None)
      in
        case first of
          Inl t \<Rightarrow> \<lparr>text = t, provider = Some Openai, error = None, notes = ns\<rparr>
        | Inr openaiError \<Rightarrow>
            (case retryStage deps input mediaType openaiApiKey openaiError ns of
               Inl r \<Rightarrow> r
             | Inr (openaiError1, input1, mediaType1, ns1) \<Rightarrow>
                 falStage deps input1 mediaType1 openaiApiKey falApiKey openaiError1 ns1))"

text \<open>
  \<open>transcribeMediaWithWhisper\<close> and \<open>transcribeMediaFileWithWhisper\<close> call each other: an
  oversized upload is written to a file and chunked, and every chunk is transcribed as
  media again. Each body takes the other function as \<open>rec\<close>; a call that does not settle is
  \<open>None\<close>.
\<close>

type_synonym mediaCall =
  "bytes \<Rightarrow> string \<Rightarrow> string option \<Rightarrow> string option \<Rightarrow> string option
   \<Rightarrow> WhisperTranscriptionResult outcome option"

type_synonym fileCall =
  "bytes \<Rightarrow> string \<Rightarrow> string option \<Rightarrow> string option \<Rightarrow> string option \<Rightarrow> nat
   \<Rightarrow> WhisperTranscriptionResult outcome option"

definition transcribeMediaWithWhisper_body :: "fileCall \<Rightarrow> WhisperDeps \<Rightarrow> mediaCall" where
  "transcribeMediaWithWhisper_body rec deps input mediaType filename openaiApiKey falApiKey =
     (let local = localAttempt deps input mediaType in
      if isWhisperCppReady deps \<and> truthy (text local) then
        Some (Returned (local\<lparr>notes := [] @ notes local\<rparr>))
      else
        let ns = notesAfterLocal deps input mediaType in
        if \<not> truthy openaiApiKey \<and> \<not> truthy falApiKey then
          Some (Returned (noProvidersAvailable ns))
        else if truthy openaiApiKey \<and> MAX_OPENAI_UPLOAD_BYTES < length input
                \<and> isFfmpegAvailable deps then
          rec input mediaType filename openaiApiKey falApiKey DEFAULT_SEGMENT_SECONDS
        else if truthy openaiApiKey \<and> MAX_OPENAI_UPLOAD_BYTES < length input then
          Some (Returned (remoteChain deps (take MAX_OPENAI_UPLOAD_BYTES input) mediaType
             filename openaiApiKey falApiKey
             (ns @ [''Media too large for Whisper upload ('' @ formatBytes deps (length input)
                    @ ''); transcribing first '' @ formatBytes deps MAX_OPENAI_UPLOAD_BYTES
                    @ '' only (install ffmpeg for full transcription)''])))
        else
          Some (Returned (remoteChain deps input mediaType filename openaiApiKey falApiKey ns)))"

text \<open>The names \<open>readdir\<close> lists are filtered and sorted with \<open>localeCompare\<close>. The names
  that pass the filter are those ffmpeg wrote for the pattern \<open>part-%03d.mp3\<close>; they differ
  in their digits, where \<open>localeCompare\<close> is the order of the code units.\<close>

fun nameLe :: "string \<Rightarrow> string \<Rightarrow> bool" where
  "nameLe [] b = True"
| "nameLe (x # xs) [] = False"
| "nameLe (x # xs) (y # ys) =
     ((of_char x :: nat) < of_char y \<or> (x = y \<and> nameLe xs ys))"

fun insertByName :: "string \<times> bytes \<Rightarrow> (string \<times> bytes) list \<Rightarrow> (string \<times> bytes) list" where
  "insertByName f [] = [f]"
| "insertByName f (g # gs) =
     (if nameLe (fst f) (fst g) then f # g # gs else g # insertByName f gs)"

definition segmentFiles :: "(string \<times> bytes) list \<Rightarrow> (string \<times> bytes) list" where
  "segmentFiles listing =
     foldr insertByName
       (filter (\<lambda>f. prefix ''part-'' (fst f) \<and> suffix ''.mp3'' (fst f)) listing) []"

text \<open>The loop over the segments, with \<open>parts\<close> and \<open>usedProvider\<close> as its state, and the
  return after it.\<close>

fun segmentLoop ::
    "mediaCall \<Rightarrow> string option \<Rightarrow> string option \<Rightarrow> (string \<times> bytes) list \<Rightarrow> string list
     \<Rightarrow> TranscriptionProvider option \<Rightarrow> string list
     \<Rightarrow> WhisperTranscriptionResult outcome option" where
  "segmentLoop rec openaiApiKey falApiKey [] parts usedProvider ns =
     Some (Returned \<lparr>text = Some (joinWith [LF, LF] parts), provider = usedProvider,
                     error = None, notes = ns\<rparr>)"
| "segmentLoop rec openaiApiKey falApiKey (f # files) parts usedProvider ns =
     (case rec (snd f) ''audio/mpeg'' (Some (fst f)) openaiApiKey falApiKey of
        None \<Rightarrow> None
      | Some (Thrown e) \<Rightarrow> Some (Thrown e)
      | Some (Returned result) \<Rightarrow>
          let usedProvider1 =
                (if usedProvider = None \<and> provider result \<noteq> None then provider result
                 else usedProvider)
          in
            if error result \<noteq> None \<and> \<not> truthy (text result) then
              Some (Returned \<lparr>text = None, provider = usedProvider1, error = error result,
                              notes = ns\<rparr>)
            else
              segmentLoop rec openaiApiKey falApiKey files
                (if truthy (text result) then parts @ [keyOf (text result)] else parts)
                usedProvider1 ns)"

definition transcribeMediaFileWithWhisper_body :: "mediaCall \<Rightarrow> WhisperDeps \<Rightarrow> fileCall" where
  "transcribeMediaFileWithWhisper_body rec deps fileBytes mediaType filename openaiApiKey
       falApiKey segmentSeconds =
     (let local = localAttempt deps fileBytes mediaType in
      if isWhisperCppReady deps \<and> truthy (text local) then
        Some (Returned (local\<lparr>notes := [] @ notes local\<rparr>))
      else
        let ns = notesAfterLocal deps fileBytes mediaType in
        if \<not> truthy openaiApiKey \<and> \<not> truthy falApiKey then
          Some (Returned (noProvidersAvailable ns))
        else if truthy openaiApiKey \<and> MAX_OPENAI_UPLOAD_BYTES < length fileBytes then
          if \<not> isFfmpegAvailable deps then
            let ns1 = ns @ [''Media too large for Whisper upload (''
                            @ formatBytes deps (length fileBytes)
                            @ ''); install ffmpeg to enable chunked transcription'']
            in
              case rec (take MAX_OPENAI_UPLOAD_BYTES fileBytes) mediaType filename openaiApiKey
                     falApiKey of
                None \<Rightarrow> None
              | Some (Thrown e) \<Rightarrow> Some (Thrown e)
              | Some (Returned partial) \<Rightarrow>
                  Some (Returned (partial\<lparr>notes := ns1 @ notes partial\<rparr>))
          else
            case runFfmpegSegment deps fileBytes segmentSeconds of
              Inl e \<Rightarrow> Some (Thrown e)
            | Inr listing \<Rightarrow>
                let files = segmentFiles listing in
                if files = [] then
                  Some (Returned \<lparr>text = None, provider = None,
                    error = Some (Error ''ffmpeg produced no audio segments''), notes = ns\<rparr>)
                else
                  segmentLoop rec openaiApiKey falApiKey files [] None
                    (ns @ [''ffmpeg chunked media into '' @ digitsOf (length files)
                           @ '' parts ('' @ digitsOf segmentSeconds @ ''s each)''])
        else
          case rec fileBytes mediaType filename openaiApiKey falApiKey of
            None \<Rightarrow> None
          | Some (Thrown e) \<Rightarrow> Some (Thrown e)
          | Some (Returned result) \<Rightarrow>
              Some (Returned (result\<lparr>notes := ns @ notes result\<rparr>)))"

text \<open>The two entry points. The first argument bounds how deep the two may call each
  other; \<open>None\<close> is a call cut off at that bound.\<close>

primrec transcribeMediaWithWhisper :: "nat \<Rightarrow> WhisperDeps \<Rightarrow> mediaCall" where
  "transcribeMediaWithWhisper 0 =
     (\<lambda>deps input mediaType filename openaiApiKey falApiKey. None)"
| "transcribeMediaWithWhisper (Suc n) =
     (\<lambda>deps. transcribeMediaWithWhisper_body
        (transcribeMediaFileWithWhisper_body (transcribeMediaWithWhisper n deps) deps) deps)"

definition transcribeMediaFileWithWhisper :: "nat \<Rightarrow> WhisperDeps \<Rightarrow> fileCall" where
  "transcribeMediaFileWithWhisper n deps =
     transcribeMediaFileWithWhisper_body (transcribeMediaWithWhisper n deps) deps"

text \<open>Exactly one of \<open>text\<close> and \<open>error\<close> is set.\<close>

definition textXorError :: "WhisperTranscriptionResult \<Rightarrow> bool" where
  "textXorError r \<longleftrightarrow> (text r = None \<longleftrightarrow> error r \<noteq> None)"

text \<open>Three environments for examples: one where nothing is installed and no request gets
  through; one with ffmpeg, where OpenAI transcribes the first segment and answers the
  second with a server error; and one with ffmpeg, where no request to OpenAI gets through
  and FAL transcribes both segments.\<close>

definition offlineWhisperDeps :: WhisperDeps where
  "offlineWhisperDeps =
     \<lparr>whisperCppDisabledEnv = None, isWhisperCliAvailable = False,
      resolveWhisperCppModelPath = None, isFfmpegAvailable = False,
      runFfmpegTranscodeToMp3 = (\<lambda>b. Inl (Error ''spawn ffmpeg ENOENT'')),
      runFfmpegTranscodeToMp3Lenient = (\<lambda>b. Inl (Error ''spawn ffmpeg ENOENT'')),
      runWhisperCli = (\<lambda>m b. Inl (Error ''spawn whisper-cli ENOENT'')),
      transcribeWithOpenAi = (\<lambda>b m f k. Inl (Error ''fetch failed'')),
      transcribeWithFal = (\<lambda>b m k. Inl (Error ''fetch failed'')),
      runFfmpegSegment = (\<lambda>b s. Inl (Error ''spawn ffmpeg ENOENT'')),
      formatBytes = (\<lambda>n. digitsOf n @ ''B'')\<rparr>"

definition chunkingWhisperDeps :: WhisperDeps where
  "chunkingWhisperDeps =
     offlineWhisperDeps
       \<lparr>isFfmpegAvailable := True,
        transcribeWithOpenAi :=
          (\<lambda>b m f k. if b = [1] then Inr (Some ''first part'')
                     else Inl (Error ''OpenAI transcription failed (500)'')),
        runFfmpegSegment :=
          (\<lambda>b s. Inr [(''part-001.mp3'', [2]), (''part-000.mp3'', [1]), (''list.txt'', [])])\<rparr>"

definition fallbackWhisperDeps :: WhisperDeps where
  "fallbackWhisperDeps =
     offlineWhisperDeps
       \<lparr>isFfmpegAvailable := True,
        transcribeWithFal :=
          (\<lambda>b m k. if b = [1] then Inr (Some ''first part'') else Inr (Some ''second part'')),
        runFfmpegSegment :=
          (\<lambda>b s. Inr [(''part-000.mp3'', [1]), (''part-001.mp3'', [2])])\<rparr>"

section \<open>YouTube transcript resolver (src/content/link-preview/transcript/providers/youtube.ts)\<close>

datatype YoutubeTranscriptMode = ModeAuto | ModeWeb | ModeApify | ModeYtDlp

text \<open>Modelled from the spec: the declaration of \<open>TranscriptSource\<close> (\<open>types.ts\<close>) is not among
  the sources; the members are those the spec's data model lists.\<close>

datatype TranscriptSource =
  SrcYoutubei | SrcCaptionTracks | SrcApify | SrcYtDlp | SrcVtt | SrcJsonTranscript
  | SrcPlainText | SrcUnavailable

record ProviderContext =
  url :: string
  html :: "string option"
  resourceKey :: "string option"

record ProviderFetchOptions =
  youtubeTranscriptMode :: YoutubeTranscriptMode
  apifyApiToken :: "string option"
  ytDlpPath :: "string option"
  openaiApiKey :: "string option"
  falApiKey :: "string option"

text \<open>
  The result of the resolver. Its \<open>text\<close> and \<open>notes\<close> are the fields \<open>resultText\<close> and
  \<open>resultNotes\<close> here, the plain names being those of \<open>WhisperTranscriptionResult\<close>. A
  \<open>metadata\<close> or \<open>notes\<close> that the returned object does not have is \<open>None\<close>.
\<close>

record ProviderResult =
  resultText :: "string option"
  source :: "TranscriptSource option"
  metadata :: "(string \<times> string option) list option"
  attemptedProviders :: "TranscriptSource list"
  resultNotes :: "string option"

text \<open>
  The functions the resolver imports (\<open>../utils.js\<close>, \<open>../normalize.js\<close>, \<open>./youtube/*.js\<close>)
  are not among the sources; they are the fields of \<open>YoutubeDeps\<close>. A transcript config is
  an object, present or \<open>null\<close>; the four fetchers settle with a transcript or \<open>null\<close>, the
  yt-dlp one with a result of the shape of \<open>WhisperTranscriptionResult\<close>. The \<open>fetch\<close> option
  is handed on to them unchanged and is part of what they stand for.
\<close>

record YoutubeDeps =
  extractYouTubeVideoId :: "string \<Rightarrow> string option"
  extractYoutubeiTranscriptConfig :: "string \<Rightarrow> string option"
  fetchTranscriptFromTranscriptEndpoint :: "string \<Rightarrow> string \<Rightarrow> string option"
  fetchTranscriptFromCaptionTracks :: "string \<Rightarrow> string \<Rightarrow> string \<Rightarrow> string option"
  fetchTranscriptWithApify :: "string option \<Rightarrow> string \<Rightarrow> string option"
  fetchTranscriptWithYtDlp ::
    "string option \<Rightarrow> string option \<Rightarrow> string option \<Rightarrow> string \<Rightarrow> WhisperTranscriptionResult"
  normalizeTranscriptText :: "string \<Rightarrow> string"

text \<open>Every call of a fetcher is recorded: these are the calls behind which the network
  and the subprocesses are.\<close>

datatype ProviderCall =
  CalledYoutubei | CalledCaptionTracks | CalledApify "string option" | CalledYtDlp

type_synonym resolution = "ProviderCall list \<times> (Error + ProviderResult)"

definition providerName :: "TranscriptionProvider \<Rightarrow> string" where
  "providerName p = (case p of Openai \<Rightarrow> ''openai'' | Fal \<Rightarrow> ''fal'' | WhisperCpp \<Rightarrow> ''whisper.cpp'')"

definition hasYtDlpCredentials :: "ProviderFetchOptions \<Rightarrow> bool" where
  "hasYtDlpCredentials options \<longleftrightarrow> truthy (openaiApiKey options) \<or> truthy (falApiKey options)"

definition canRunYtDlp :: "ProviderFetchOptions \<Rightarrow> bool" where
  "canRunYtDlp options \<longleftrightarrow> truthy (ytDlpPath options) \<and> hasYtDlpCredentials options"

definition joinedNotes :: "string list \<Rightarrow> string option" where
  "joinedNotes ns = (if ns \<noteq> [] then Some (joinWith ''; '' ns) else None)"

definition found ::
    "YoutubeDeps \<Rightarrow> string \<Rightarrow> TranscriptSource \<Rightarrow> (string \<times> string option) list
     \<Rightarrow> TranscriptSource list \<Rightarrow> string option \<Rightarrow> ProviderResult" where
  "found deps transcript src meta attempted ns =
     \<lparr>resultText = Some (normalizeTranscriptText deps transcript), source = Some src,
      metadata = Some meta, attemptedProviders = attempted, resultNotes = ns\<rparr>"

text \<open>The last block of \<open>fetchTranscript\<close>: yt-dlp when the mode asks for it, or in mode
  \<open>auto\<close> when it can run; then \<open>unavailable\<close>.\<close>

definition ytDlpStage ::
    "YoutubeDeps \<Rightarrow> string \<Rightarrow> ProviderFetchOptions \<Rightarrow> TranscriptSource list
     \<Rightarrow> ProviderCall list \<Rightarrow> resolution" where
  "ytDlpStage deps u options attempted calls =
     (let mode = youtubeTranscriptMode options;
          unavailable = (\<lambda>att ns.
            \<lparr>resultText = None, source = Some SrcUnavailable,
             metadata = Some [(''provider'', Some ''youtube''),
                              (''reason'', Some ''no_transcript_available'')],
             attemptedProviders = att @ [SrcUnavailable], resultNotes = joinedNotes ns\<rparr>)
      in
        if mode = ModeYtDlp \<or> (mode = ModeAuto \<and> canRunYtDlp options) then
          let attempted1 = attempted @ [SrcYtDlp];
              calls1 = calls @ [CalledYtDlp];
              ytdlpResult = fetchTranscriptWithYtDlp deps (ytDlpPath options)
                              (openaiApiKey options) (falApiKey options) u;
              ns = notes ytdlpResult
          in
            if truthy (text ytdlpResult) then
              (calls1, Inr (found deps (keyOf (text ytdlpResult)) SrcYtDlp
                 [(''provider'', Some ''yt-dlp''),
                  (''transcriptionProvider'', map_option providerName (provider ytdlpResult))]
                 attempted1 (joinedNotes ns)))
            else
              (case error ytdlpResult of
                 Some e \<Rightarrow>
                   if mode = ModeYtDlp then (calls1, Inl e)
                   else (calls1, Inr (unavailable attempted1 ns))
               | None \<Rightarrow> (calls1, Inr (unavailable attempted1 ns)))
        else (calls, Inr (unavailable attempted [])))"

definition apifyStage ::
    "YoutubeDeps \<Rightarrow> string \<Rightarrow> ProviderFetchOptions \<Rightarrow> TranscriptSource list
     \<Rightarrow> ProviderCall list \<Rightarrow> resolution" where
  "apifyStage deps u options attempted calls =
     (let mode = youtubeTranscriptMode options in
      if mode = ModeAuto \<or> mode = ModeApify then
        let attempted1 = attempted @ [SrcApify];
            calls1 = calls @ [CalledApify (apifyApiToken options)];
            apifyTranscript = fetchTranscriptWithApify deps (apifyApiToken options) u
        in
          if truthy apifyTranscript then
            (calls1, Inr (found deps (keyOf apifyTranscript) SrcApify
               [(''provider'', Some ''apify'')] attempted1 None))
          else ytDlpStage deps u options attempted1 calls1
      else ytDlpStage deps u options attempted calls)"

definition captionTracksStage ::
    "YoutubeDeps \<Rightarrow> string \<Rightarrow> string \<Rightarrow> string \<Rightarrow> ProviderFetchOptions
     \<Rightarrow> TranscriptSource list \<Rightarrow> ProviderCall list \<Rightarrow> resolution" where
  "captionTracksStage deps h u videoId options attempted calls =
     (let attempted1 = attempted @ [SrcCaptionTracks];
          calls1 = calls @ [CalledCaptionTracks];
          captionTranscript = fetchTranscriptFromCaptionTracks deps h u videoId
      in
        if truthy captionTranscript then
          (calls1, Inr (found deps (keyOf captionTranscript) SrcCaptionTracks
             [(''provider'', Some ''captionTracks'')] attempted1 None))
        else apifyStage deps u options attempted1 calls1)"

definition webStage ::
    "YoutubeDeps \<Rightarrow> string \<Rightarrow> string \<Rightarrow> string \<Rightarrow> ProviderFetchOptions \<Rightarrow> resolution" where
  "webStage deps h u videoId options =
     (let mode = youtubeTranscriptMode options in
      if mode = ModeAuto \<or> mode = ModeWeb then
        (case extractYoutubeiTranscriptConfig deps h of
           Some config \<Rightarrow>
             let transcript = fetchTranscriptFromTranscriptEndpoint deps config u in
             if truthy transcript then
               ([CalledYoutubei], Inr (found deps (keyOf transcript) SrcYoutubei
                  [(''provider'', Some ''youtubei'')] [SrcYoutubei] None))
             else captionTracksStage deps h u videoId options [SrcYoutubei] [CalledYoutubei]
         | None \<Rightarrow> captionTracksStage deps h u videoId options [] [])
      else apifyStage deps u options [] [])"

definition neverTried :: ProviderResult where
  "neverTried =
     \<lparr>resultText = None, source = None, metadata = None, attemptedProviders = [],
      resultNotes = None\<rparr>"

text \<open>\<open>context.resourceKey ?? extractYouTubeVideoId(url)\<close>, trimmed; \<open>null\<close> when the
  trimmed candidate is empty.\<close>

definition effectiveVideoId :: "YoutubeDeps \<Rightarrow> ProviderContext \<Rightarrow> string option" where
  "effectiveVideoId deps context =
     (let candidate = (case resourceKey context of
                         Some k \<Rightarrow> Some k
                       | None \<Rightarrow> extractYouTubeVideoId deps (url context))
      in case candidate of
           None \<Rightarrow> None
         | Some c \<Rightarrow> if trim c \<noteq> [] then Some (trim c) else None)"

definition fetchTranscript :: "YoutubeDeps \<Rightarrow> ProviderContext \<Rightarrow> ProviderFetchOptions \<Rightarrow> resolution" where
  "fetchTranscript deps context options =
     (let mode = youtubeTranscriptMode options in
      if mode = ModeYtDlp \<and> \<not> truthy (ytDlpPath options) then
        ([], Inl (Error ''Missing YT_DLP_PATH for --youtube yt-dlp''))
      else if mode = ModeYtDlp \<and> \<not> hasYtDlpCredentials options then
        ([], Inl (Error ''Missing OPENAI_API_KEY or FAL_KEY for --youtube yt-dlp''))
      else if \<not> truthy (html context) then ([], Inr neverTried)
      else
        case effectiveVideoId deps context of
          None \<Rightarrow> ([], Inr neverTried)
        | Some videoId \<Rightarrow> webStage deps (keyOf (html context)) (url context) videoId options)"

text \<open>An environment for examples: a watch page without a transcript config, and fetchers
  that find nothing.\<close>

definition silentYoutubeDeps :: YoutubeDeps where
  "silentYoutubeDeps =
     \<lparr>extractYouTubeVideoId = (\<lambda>u. None),
      extractYoutubeiTranscriptConfig = (\<lambda>h. None),
      fetchTranscriptFromTranscriptEndpoint = (\<lambda>c u. None),
      fetchTranscriptFromCaptionTracks = (\<lambda>h u v. None),
      fetchTranscriptWithApify = (\<lambda>t u. None),
      fetchTranscriptWithYtDlp = (\<lambda>p ok fk u.
        \<lparr>text = None, provider = None, error = Some (Error ''yt-dlp failed''), notes = []\<rparr>),
      normalizeTranscriptText = (\<lambda>t. t)\<rparr>"

text \<open>The same environment for a watch page that has a transcript config, while the
  transcript endpoint still answers with no transcript.\<close>

definition configuredPageYoutubeDeps :: YoutubeDeps where
  "configuredPageYoutubeDeps =
     silentYoutubeDeps\<lparr>extractYoutubeiTranscriptConfig := (\<lambda>h. Some ''TEST_PARAMS'')\<rparr>"

section \<open>Stream reconciler: properties\<close>

subsection \<open>Line-ending normalisation\<close>

lemma CR_neq_LF: "CR \<noteq> LF"
  by (simp add: CR_def LF_def)

lemma normalizeStreamText_id: "CR \<notin> set s \<Longrightarrow> normalizeStreamText s = s"
  by (induction s rule: normalizeStreamText.induct) auto

lemma CR_notin_normalizeStreamText: "CR \<notin> set (normalizeStreamText s)"
  using CR_neq_LF by (induction s rule: normalizeStreamText.induct) auto

lemma normalizeStreamText_idem:
  "normalizeStreamText (normalizeStreamText s) = normalizeStreamText s"
  by (rule normalizeStreamText_id) (rule CR_notin_normalizeStreamText)

lemma normalizeStreamText_Nil_iff: "normalizeStreamText s = [] \<longleftrightarrow> s = []"
  by (induction s rule: normalizeStreamText.induct) auto

lemma normalizeStreamText_prefix:
  "prefix (normalizeStreamText p) (normalizeStreamText (p @ s))"
proof (induction p rule: normalizeStreamText.induct)
  case 1
  then show ?case by simp
next
  case (2 c)
  then show ?case by (cases s) auto
next
  case (3 c d cs)
  then show ?case by auto
qed


subsection \<open>The bounded common-prefix scan\<close>

text \<open>The scan returns the length of the longest common prefix, capped at \<open>limit\<close>.\<close>

lemma commonPrefixLoop_lcp:
  "i \<le> mx \<Longrightarrow> mx \<le> length a \<Longrightarrow> mx \<le> length b \<Longrightarrow>
   commonPrefixLoop a b mx i =
     i + length (longest_common_prefix (take (mx - i) (drop i a)) (take (mx - i) (drop i b)))"
proof (induction a b mx i rule: commonPrefixLoop.induct)
  case (1 a b mx i)
  show ?case
  proof (cases "i < mx")
    case False
    with "1.prems" show ?thesis by (subst commonPrefixLoop.simps) simp
  next
    case True
    with "1.prems" have ia: "i < length a" and ib: "i < length b" by simp_all
    from True obtain k where k: "mx - i = Suc k" "mx - (i + 1) = k"
      by (cases "mx - i") auto
    have da: "drop i a = a ! i # drop (i + 1) a"
      using ia by (simp add: Cons_nth_drop_Suc)
    have db: "drop i b = b ! i # drop (i + 1) b"
      using ib by (simp add: Cons_nth_drop_Suc)
    show ?thesis
    proof (cases "a ! i = b ! i")
      case False
      with True show ?thesis by (simp add: da db k commonPrefixLoop.simps[of a b mx i])
    next
      case eq: True
      have "commonPrefixLoop a b mx i = commonPrefixLoop a b mx (i + 1)"
        using True eq by (simp add: commonPrefixLoop.simps[of a b mx i])
      also have "\<dots> = (i + 1) + length (longest_common_prefix (take k (drop (i + 1) a)) (take k (drop (i + 1) b)))"
        using "1.IH"[OF True] eq True "1.prems" k by simp
      finally show ?thesis using eq by (simp add: da db k)
    qed
  qed
qed

lemma length_lcp_take:
  "length (longest_common_prefix (take m a) (take m b)) =
     min m (length (longest_common_prefix a b))"
proof (induction a b arbitrary: m rule: longest_common_prefix.induct)
  case (1 x xs y ys)
  then show ?case by (cases m) auto
qed simp_all

lemma commonPrefixLength_lcp:
  "commonPrefixLength a b limit = min limit (length (longest_common_prefix a b))"
proof -
  let ?m = "min (min (length a) (length b)) limit"
  have "commonPrefixLength a b limit =
          length (longest_common_prefix (take ?m a) (take ?m b))"
    unfolding commonPrefixLength_def
    by (subst commonPrefixLoop_lcp) simp_all
  also have "\<dots> = min ?m (length (longest_common_prefix a b))"
    by (rule length_lcp_take)
  also have "\<dots> = min limit (length (longest_common_prefix a b))"
  proof -
    have "length (longest_common_prefix a b) \<le> length a"
      by (metis longest_common_prefix_prefix1 prefix_length_le)
    moreover have "length (longest_common_prefix a b) \<le> length b"
      by (metis longest_common_prefix_prefix2 prefix_length_le)
    ultimately show ?thesis by simp
  qed
  finally show ?thesis .
qed

subsection \<open>The merge\<close>

lemma overlapLoop_next_append: "\<exists>x. next (overlapLoop p c n) = p @ x"
  by (induction n) auto

lemma mergeStreamingChunk_normalized:
  "chunk \<noteq> [] \<Longrightarrow>
   mergeStreamingChunk previous chunk =
     mergeStreamingChunk (normalizeStreamText previous) (normalizeStreamText chunk)"
  by (simp add: mergeStreamingChunk_def normalizeStreamText_idem normalizeStreamText_Nil_iff)

lemma CR_notin_overlapLoop:
  "CR \<notin> set p \<Longrightarrow> CR \<notin> set c \<Longrightarrow>
   CR \<notin> set (next (overlapLoop p c n)) \<and> CR \<notin> set (appended (overlapLoop p c n))"
  by (induction n) (auto dest: in_set_dropD)

lemma CR_notin_merge:
  assumes "chunk \<noteq> []"
  shows "CR \<notin> set (next (mergeStreamingChunk previous chunk))"
    and "CR \<notin> set (appended (mergeStreamingChunk previous chunk))"
  using assms CR_notin_normalizeStreamText[of previous] CR_notin_normalizeStreamText[of chunk]
    CR_notin_overlapLoop[of "normalizeStreamText previous" "normalizeStreamText chunk"]
  by (auto simp: mergeStreamingChunk_def Let_def dest: in_set_dropD)

text \<open>
  Claim C1, as amended. For every \<open>previous\<close> and every suffix, merging
  \<open>previous @ sfx\<close> into \<open>previous\<close> returns as \<open>next\<close> the line-ending-normalized form of
  \<open>previous @ sfx\<close> and as \<open>appended\<close> the part of it after the normalized \<open>previous\<close>. When
  neither string contains a carriage return this is \<open>next = previous @ sfx\<close> and
  \<open>appended = sfx\<close>.
\<close>

theorem merge_cumulative_extension:
  "next (mergeStreamingChunk previous (previous @ sfx)) = normalizeStreamText (previous @ sfx)
   \<and> appended (mergeStreamingChunk previous (previous @ sfx)) =
       drop (length (normalizeStreamText previous)) (normalizeStreamText (previous @ sfx))
   \<and> (CR \<notin> set previous \<and> CR \<notin> set sfx \<longrightarrow>
        next (mergeStreamingChunk previous (previous @ sfx)) = previous @ sfx
        \<and> appended (mergeStreamingChunk previous (previous @ sfx)) = sfx)"
proof -
  let ?r = "mergeStreamingChunk previous (previous @ sfx)"
  have pre: "prefix (normalizeStreamText previous) (normalizeStreamText (previous @ sfx))"
    by (rule normalizeStreamText_prefix)
  have n: "next ?r = normalizeStreamText (previous @ sfx)"
    using pre by (simp add: mergeStreamingChunk_def Let_def normalizeStreamText_Nil_iff)
  have a: "appended ?r =
      drop (length (normalizeStreamText previous)) (normalizeStreamText (previous @ sfx))"
    using pre by (simp add: mergeStreamingChunk_def Let_def normalizeStreamText_Nil_iff)
  have "next ?r = previous @ sfx \<and> appended ?r = sfx"
    if "CR \<notin> set previous" "CR \<notin> set sfx"
  proof -
    from that have "normalizeStreamText (previous @ sfx) = previous @ sfx"
      and "normalizeStreamText previous = previous"
      by (simp_all add: normalizeStreamText_id)
    with n a show ?thesis by simp
  qed
  with n a show ?thesis by blast
qed

text \<open>
  Claim C1 as stated fails when a carriage return is present: with \<open>previous = "a"\<close> and
  suffix \<open>"\r"\<close> the chunk is \<open>"a\r"\<close>, and \<open>next\<close> is \<open>"a\n"\<close>, not the chunk.
\<close>

theorem merge_cumulative_extension_counterexample:
  "next (mergeStreamingChunk ''a'' (''a'' @ [CR])) \<noteq> ''a'' @ [CR]"
  by (simp add: mergeStreamingChunk_def CR_def LF_def)

text \<open>Claim C1 at \<open>previous = "Hello"\<close>, suffix \<open>" world"\<close>.\<close>

theorem merge_cumulative_extension_witness:
  "CR \<notin> set ''Hello'' \<and> CR \<notin> set '' world''
   \<and> next (mergeStreamingChunk ''Hello'' (''Hello'' @ '' world'')) = ''Hello world''
   \<and> appended (mergeStreamingChunk ''Hello'' (''Hello'' @ '' world'')) = '' world''"
  using merge_cumulative_extension[of "''Hello''" "'' world''"] by (simp add: CR_def)

text \<open>
  Claim C2, as amended. For a non-empty chunk the whole result is computed from the
  normalized forms of both inputs: merging the inputs gives the same result as merging their
  normalized forms, and neither \<open>next\<close> nor \<open>appended\<close> contains a carriage return. So
  normalisation is not for comparison only; the returned strings are the normalized ones.
  Only an empty chunk leaves \<open>previous\<close> as it is.
\<close>

theorem merge_returns_normalized:
  "(chunk = [] \<longrightarrow> mergeStreamingChunk previous chunk = \<lparr>next = previous, appended = []\<rparr>)
   \<and> (chunk \<noteq> [] \<longrightarrow>
        mergeStreamingChunk previous chunk =
          mergeStreamingChunk (normalizeStreamText previous) (normalizeStreamText chunk)
        \<and> CR \<notin> set (next (mergeStreamingChunk previous chunk))
        \<and> CR \<notin> set (appended (mergeStreamingChunk previous chunk)))"
  using mergeStreamingChunk_normalized[of chunk previous] CR_notin_merge[of chunk previous]
  by (simp add: mergeStreamingChunk_def)

text \<open>
  Claim C2 as stated fails: with an empty \<open>previous\<close> and the chunk \<open>"a\r\nb"\<close>, a \<open>next\<close>
  that preserved the content of the inputs would be the chunk itself; the code returns
  \<open>"a\nb"\<close>.
\<close>

theorem merge_preserves_content_counterexample:
  "next (mergeStreamingChunk [] [CHR ''a'', CR, LF, CHR ''b'']) = [CHR ''a'', LF, CHR ''b'']
   \<and> next (mergeStreamingChunk [] [CHR ''a'', CR, LF, CHR ''b'']) \<noteq> [CHR ''a'', CR, LF, CHR ''b'']"
  by (simp add: mergeStreamingChunk_def Let_def CR_def LF_def)

text \<open>Claim C2 (amended) at an empty chunk and at the non-empty chunk \<open>"a\r\nb"\<close>.\<close>

theorem merge_returns_normalized_witness:
  "mergeStreamingChunk [CR] [] = \<lparr>next = [CR], appended = []\<rparr>
   \<and> mergeStreamingChunk ''a'' [CHR ''a'', CR, LF, CHR ''b''] = \<lparr>next = [CHR ''a'', LF, CHR ''b''], appended = [LF, CHR ''b'']\<rparr>
   \<and> CR \<notin> set (next (mergeStreamingChunk ''a'' [CHR ''a'', CR, LF, CHR ''b'']))"
  using merge_returns_normalized[of "[]" "[CR]"] merge_returns_normalized[of "[CHR ''a'', CR, LF, CHR ''b'']" "''a''"]
  by (simp add: mergeStreamingChunk_def CR_def LF_def)

text \<open>
  Claim C5, as amended. Let \<open>prev\<close> and \<open>nextChunk\<close> be the normalized forms of \<open>previous\<close> and
  \<open>chunk\<close>, with \<open>nextChunk\<close> at least as long as \<open>prev\<close> and neither a prefix of the other.
  The scanned prefix length is the length of the longest common prefix capped at \<open>4096\<close>.
  The merge returns \<open>next = nextChunk\<close> and \<open>appended\<close> = the part of \<open>nextChunk\<close> past the
  common prefix exactly when that prefix length is positive and at least the larger of
  \<open>|prev| - 64\<close> and \<open>\<lfloor>0.9 \<sdot> |prev|\<rfloor>\<close>.
\<close>

theorem merge_near_prefix_resend:
  fixes previous chunk :: string
  defines "prev \<equiv> normalizeStreamText previous"
    and "nextChunk \<equiv> normalizeStreamText chunk"
  defines "prefixLen \<equiv> commonPrefixLength prev nextChunk 4096"
  assumes len: "length prev \<le> length nextChunk"
    and np1: "\<not> prefix prev nextChunk"
    and np2: "\<not> prefix nextChunk prev"
  shows "prefixLen = min 4096 (length (longest_common_prefix prev nextChunk))
    \<and> (mergeStreamingChunk previous chunk = \<lparr>next = nextChunk, appended = drop prefixLen nextChunk\<rparr>
         \<longleftrightarrow> 0 < prefixLen \<and> max (int (length prev) - 64) (int (9 * length prev div 10)) \<le> int prefixLen)"
proof -
  have c: "chunk \<noteq> []" using np2 by (auto simp: nextChunk_def)
  have p: "prev \<noteq> []" using np1 by auto
  let ?cond = "0 < prefixLen \<and> minPrefix (length prev) \<le> int prefixLen"
  have yes: "mergeStreamingChunk previous chunk = \<lparr>next = nextChunk, appended = drop prefixLen nextChunk\<rparr>"
    if ?cond
    using that c p np1 np2 len
    by (simp add: mergeStreamingChunk_def Let_def prev_def nextChunk_def prefixLen_def)
  have no: "next (mergeStreamingChunk previous chunk) \<noteq> nextChunk" if "\<not> ?cond"
  proof -
    have "mergeStreamingChunk previous chunk =
        overlapLoop prev nextChunk (min (min (length prev) (length nextChunk)) 2048)"
      using that c p np1 np2 len
      by (auto simp add: mergeStreamingChunk_def Let_def prev_def nextChunk_def prefixLen_def)
    then obtain x where "next (mergeStreamingChunk previous chunk) = prev @ x"
      using overlapLoop_next_append by metis
    with np1 show ?thesis by auto
  qed
  have "mergeStreamingChunk previous chunk = \<lparr>next = nextChunk, appended = drop prefixLen nextChunk\<rparr>
      \<longleftrightarrow> ?cond"
    using yes no by (metis merged.select_convs(1))
  then show ?thesis
    by (simp add: prefixLen_def commonPrefixLength_lcp minPrefix_def)
qed


text \<open>
  Claim C5 as stated fails: \<open>previous = "abcdefghij"\<close> and \<open>chunk = "abcdefghi\r"\<close> are
  equally long, neither is a prefix of the other, their common prefix has length \<open>9\<close>, which
  is \<open>90%\<close> of \<open>10\<close>; yet \<open>next\<close> is \<open>"abcdefghi\n"\<close> and not the chunk.
\<close>

theorem merge_near_prefix_resend_counterexample:
  "length ''abcdefghij'' \<le> length (''abcdefghi'' @ [CR])
   \<and> \<not> prefix ''abcdefghij'' (''abcdefghi'' @ [CR])
   \<and> \<not> prefix (''abcdefghi'' @ [CR]) ''abcdefghij''
   \<and> commonPrefixLength ''abcdefghij'' (''abcdefghi'' @ [CR]) 4096 = 9
   \<and> minPrefix (length ''abcdefghij'') = 9
   \<and> next (mergeStreamingChunk ''abcdefghij'' (''abcdefghi'' @ [CR])) \<noteq> ''abcdefghi'' @ [CR]"
  by (simp add: mergeStreamingChunk_def commonPrefixLength_def commonPrefixLoop.simps minPrefix_def Let_def CR_def LF_def)

subsection \<open>Pure-delta streams\<close>

lemma overlapLoop_none:
  "\<forall>len. 1 \<le> len \<and> len \<le> n \<longrightarrow> \<not> overlapsAt p c len \<Longrightarrow>
   overlapLoop p c n = \<lparr>next = p @ c, appended = c\<rparr>"
  by (induction n) (auto simp: overlapsAt_def)

lemma overlapLoop_some:
  "\<exists>len. 1 \<le> len \<and> len \<le> n \<and> overlapsAt p c len \<Longrightarrow>
   \<exists>k. 1 \<le> k \<and> k \<le> n \<and> overlapLoop p c n = \<lparr>next = p @ drop k c, appended = drop k c\<rparr>"
proof (induction n)
  case 0
  then show ?case by simp
next
  case (Suc n)
  show ?case
  proof (cases "overlapsAt p c (Suc n)")
    case True
    then show ?thesis by (auto simp: overlapsAt_def intro!: exI[of _ "Suc n"])
  next
    case False
    with Suc.prems have "\<exists>len. 1 \<le> len \<and> len \<le> n \<and> overlapsAt p c len"
      by (metis le_SucE)
    from Suc.IH[OF this] obtain k where "1 \<le> k" "k \<le> n"
      "overlapLoop p c n = \<lparr>next = p @ drop k c, appended = drop k c\<rparr>" by blast
    with False show ?thesis by (auto simp: overlapsAt_def intro!: exI[of _ k])
  qed
qed

lemma list_ex_from_1:
  "list_ex P [1 ..< Suc n] \<longleftrightarrow> (\<exists>len. 1 \<le> len \<and> len \<le> n \<and> P len)"
  by (auto simp: list_ex_iff less_Suc_eq_le)


lemma mergeStep_cases:
  assumes "CR \<notin> set acc" "CR \<notin> set d"
  shows "(d = [] \<or> acc = [] \<or> \<not> stitched acc d) \<and> mergeStep acc d = acc @ d
       \<or> \<not> (d = [] \<or> acc = [] \<or> \<not> stitched acc d) \<and> length (mergeStep acc d) < length acc + length d"
proof -
  have na: "normalizeStreamText acc = acc" and nd: "normalizeStreamText d = d"
    using assms by (simp_all add: normalizeStreamText_id)
  let ?n = "min (min (length acc) (length d)) 2048"
  have ex_iff: "list_ex (overlapsAt acc d) [1 ..< Suc ?n] \<longleftrightarrow> (\<exists>len. 1 \<le> len \<and> len \<le> ?n \<and> overlapsAt acc d len)"
    by (rule list_ex_from_1)
  show ?thesis
  proof (cases "d = [] \<or> acc = []")
    case True
    then show ?thesis by (auto simp: mergeStep_def mergeStreamingChunk_def Let_def na nd)
  next
    case ne: False
    show ?thesis
    proof (cases "prefix acc d \<or> prefix d acc")
      case True
      then have "stitched acc d" unfolding stitched_def by blast
      moreover have "length (mergeStep acc d) < length acc + length d"
        using True ne by (auto simp: mergeStep_def mergeStreamingChunk_def Let_def na nd)
      ultimately show ?thesis using ne by simp
    next
      case np: False
      let ?L = "commonPrefixLength acc d 4096"
      show ?thesis
      proof (cases "length acc \<le> length d \<and> 0 < ?L \<and> minPrefix (length acc) \<le> int ?L")
        case True
        then have "stitched acc d" unfolding stitched_def by blast
        moreover have "mergeStep acc d = d"
          using True ne np by (auto simp: mergeStep_def mergeStreamingChunk_def Let_def na nd)
        ultimately show ?thesis using ne by auto
      next
        case nl: False
        have m: "mergeStreamingChunk acc d = overlapLoop acc d ?n"
          using nl ne np by (auto simp: mergeStreamingChunk_def Let_def na nd)
        show ?thesis
        proof (cases "\<exists>len. 1 \<le> len \<and> len \<le> ?n \<and> overlapsAt acc d len")
          case True
          then have "stitched acc d" using ex_iff unfolding stitched_def by blast
          moreover from overlapLoop_some[OF True] obtain k where "1 \<le> k" "k \<le> ?n"
            "overlapLoop acc d ?n = \<lparr>next = acc @ drop k d, appended = drop k d\<rparr>" by blast
          then have "length (mergeStep acc d) < length acc + length d"
            using m by (auto simp: mergeStep_def)
          ultimately show ?thesis using ne by simp
        next
          case False
          then have "\<not> stitched acc d" using ex_iff nl np unfolding stitched_def by blast
          moreover have "mergeStep acc d = acc @ d"
            using overlapLoop_none[of ?n acc d] False m by (auto simp: mergeStep_def)
          ultimately show ?thesis by simp
        qed
      qed
    qed
  qed
qed

lemma mergeStep_noCR: "CR \<notin> set acc \<Longrightarrow> CR \<notin> set d \<Longrightarrow> CR \<notin> set (mergeStep acc d)"
  using CR_notin_merge(1)[of d acc]
  by (cases "d = []") (auto simp: mergeStep_def mergeStreamingChunk_def)

lemma mergeStep_length: "CR \<notin> set acc \<Longrightarrow> CR \<notin> set d \<Longrightarrow> length (mergeStep acc d) \<le> length acc + length d"
  using mergeStep_cases[of acc d] by auto

lemma foldl_mergeStep_length:
  "CR \<notin> set acc \<Longrightarrow> \<forall>d\<in>set ds. CR \<notin> set d \<Longrightarrow>
   length (foldl mergeStep acc ds) \<le> length acc + length (concat ds)"
proof (induction ds arbitrary: acc)
  case Nil
  then show ?case by simp
next
  case (Cons d ds)
  have "length (foldl mergeStep (mergeStep acc d) ds) \<le> length (mergeStep acc d) + length (concat ds)"
    using Cons.prems by (intro Cons.IH) (simp_all add: mergeStep_noCR)
  also have "\<dots> \<le> length acc + length d + length (concat ds)"
    using mergeStep_length[of acc d] Cons.prems by simp
  finally show ?case by simp
qed

lemma foldl_mergeStep_concat_iff:
  "CR \<notin> set acc \<Longrightarrow> \<forall>d\<in>set ds. CR \<notin> set d \<Longrightarrow>
   foldl mergeStep acc ds = acc @ concat ds \<longleftrightarrow> pureDeltaSafe acc ds"
proof (induction ds arbitrary: acc)
  case Nil
  then show ?case by simp
next
  case (Cons d ds)
  from Cons.prems have d: "CR \<notin> set d" and ds: "\<forall>d\<in>set ds. CR \<notin> set d" by simp_all
  let ?ok = "d = [] \<or> acc = [] \<or> \<not> stitched acc d"
  show ?case
  proof (cases ?ok)
    case True
    then have s: "mergeStep acc d = acc @ d" using mergeStep_cases[OF Cons.prems(1) d] by auto
    have "foldl mergeStep (acc @ d) ds = (acc @ d) @ concat ds \<longleftrightarrow> pureDeltaSafe (acc @ d) ds"
      using Cons.prems(1) d ds by (intro Cons.IH) simp_all
    with True s show ?thesis by simp
  next
    case False
    then have lt: "length (mergeStep acc d) < length acc + length d"
      using mergeStep_cases[OF Cons.prems(1) d] by auto
    have "length (foldl mergeStep (mergeStep acc d) ds) \<le> length (mergeStep acc d) + length (concat ds)"
      using Cons.prems(1) d ds by (intro foldl_mergeStep_length) (simp_all add: mergeStep_noCR)
    with lt have "length (foldl mergeStep (mergeStep acc d) ds) < length (acc @ concat (d # ds))" by simp
    then have "foldl mergeStep (mergeStep acc d) ds \<noteq> acc @ concat (d # ds)" by (metis less_irrefl)
    with False show ?thesis by simp
  qed
qed

text \<open>
  Claim C6, as amended. For deltas without carriage returns, merging them one after the
  other from the empty text reconstructs their concatenation exactly when no step is
  stitched: at every step the delta is empty, or the text accumulated so far is empty, or
  the delta is unrelated to the accumulated text (no prefix either way, no long shared
  prefix, no suffix of the accumulated text that is a prefix of the delta).
\<close>

theorem mergeAll_pure_delta_roundtrip:
  "\<forall>d\<in>set ds. CR \<notin> set d \<Longrightarrow> mergeAll ds = concat ds \<longleftrightarrow> pureDeltaSafe [] ds"
  using foldl_mergeStep_concat_iff[of "[]" ds]
  by (simp add: mergeAll_def mergeStep_def[abs_def])
lemma pureDeltaSafe_hello_world: "pureDeltaSafe [] [''Hello '', ''world'', ''!'']"
    by (simp add: stitched_def overlapsAt_def commonPrefixLength_def commonPrefixLoop.simps minPrefix_def)

text \<open>
  Claim C6 as stated fails: the pure deltas \<open>"ha"\<close>, \<open>"ha"\<close> concatenate to \<open>"haha"\<close>, but the
  second delta extends the accumulated \<open>"ha"\<close> as a cumulative resend would, and the merged
  text stays \<open>"ha"\<close>.
\<close>

theorem mergeAll_pure_delta_roundtrip_counterexample: "mergeAll [''ha'', ''ha''] = ''ha'' \<and> mergeAll [''ha'', ''ha''] \<noteq> concat [''ha'', ''ha'']"
  by (simp add: mergeAll_def mergeStreamingChunk_def Let_def CR_def LF_def)

text \<open>Claim C6 (amended) at the deltas \<open>"Hello "\<close>, \<open>"world"\<close>, \<open>"!"\<close>.\<close>

theorem mergeAll_pure_delta_roundtrip_witness:
  "CR \<notin> set ''Hello '' \<and> CR \<notin> set ''world'' \<and> CR \<notin> set ''!''
   \<and> pureDeltaSafe [] [''Hello '', ''world'', ''!'']
   \<and> mergeAll [''Hello '', ''world'', ''!''] = ''Hello world!''"
proof -
  have a: "\<forall>d\<in>set [''Hello '', ''world'', ''!'']. CR \<notin> set d" by (simp add: CR_def)
  from mergeAll_pure_delta_roundtrip[OF a] a pureDeltaSafe_hello_world show ?thesis by simp
qed

lemma normalize_example_prev: "normalizeStreamText ''abcdefghij'' = ''abcdefghij''"
    and normalize_example_chunk: "normalizeStreamText ''abcdefghiX!'' = ''abcdefghiX!''"
    by (simp_all add: CR_def)
lemma commonPrefixLength_example: "commonPrefixLength ''abcdefghij'' ''abcdefghiX!'' 4096 = 9"
    by (simp add: commonPrefixLength_def commonPrefixLoop.simps)

text \<open>Claim C5 (amended) at \<open>previous = "abcdefghij"\<close>, \<open>chunk = "abcdefghiX!"\<close>.\<close>

theorem merge_near_prefix_resend_witness:
  "length (normalizeStreamText ''abcdefghij'') \<le> length (normalizeStreamText ''abcdefghiX!'')
   \<and> \<not> prefix (normalizeStreamText ''abcdefghij'') (normalizeStreamText ''abcdefghiX!'')
   \<and> \<not> prefix (normalizeStreamText ''abcdefghiX!'') (normalizeStreamText ''abcdefghij'')
   \<and> mergeStreamingChunk ''abcdefghij'' ''abcdefghiX!'' = \<lparr>next = ''abcdefghiX!'', appended = ''X!''\<rparr>"
proof -
  have h1: "length (normalizeStreamText ''abcdefghij'') \<le> length (normalizeStreamText ''abcdefghiX!'')"
    unfolding normalize_example_prev normalize_example_chunk by simp
  have h2: "\<not> prefix (normalizeStreamText ''abcdefghij'') (normalizeStreamText ''abcdefghiX!'')"
    unfolding normalize_example_prev normalize_example_chunk by simp
  have h3: "\<not> prefix (normalizeStreamText ''abcdefghiX!'') (normalizeStreamText ''abcdefghij'')"
    unfolding normalize_example_prev normalize_example_chunk by simp
  have "mergeStreamingChunk ''abcdefghij'' ''abcdefghiX!'' = \<lparr>next = ''abcdefghiX!'', appended = drop 9 ''abcdefghiX!''\<rparr>
     \<longleftrightarrow> 0 < (9::nat) \<and> max (int (length ''abcdefghij'') - 64) (int (9 * length ''abcdefghij'' div 10)) \<le> int 9"
    using merge_near_prefix_resend[OF h1 h2 h3] unfolding normalize_example_prev normalize_example_chunk commonPrefixLength_example by (rule conjunct2)
  then have "mergeStreamingChunk ''abcdefghij'' ''abcdefghiX!'' = \<lparr>next = ''abcdefghiX!'', appended = ''X!''\<rparr>"
    by simp
  with h1 h2 h3 show ?thesis by blast
qed

text \<open>
  Two more inputs show why the threshold of the near-prefix branch reads as it does. With
  \<open>prev = "a"\<close> the threshold is \<open>0\<close>, and a common prefix of length \<open>0\<close> does not take the
  branch: the prefix must be positive. With \<open>prev = "abcde"\<close> the threshold is
  \<open>\<lfloor>4.5\<rfloor> = 4\<close>, and a common prefix of length \<open>4\<close> takes the branch although
  it is less than \<open>90%\<close> of \<open>5\<close>.
\<close>

lemma near_prefix_needs_positive_prefix:
  "minPrefix (length ''a'') \<le> int (commonPrefixLength ''a'' ''b'' 4096)
   \<and> mergeStreamingChunk ''a'' ''b'' = \<lparr>next = ''ab'', appended = ''b''\<rparr>"
  by (simp add: mergeStreamingChunk_def commonPrefixLength_def commonPrefixLoop.simps
      minPrefix_def Let_def CR_def LF_def)

lemma near_prefix_threshold_is_floor:
  "commonPrefixLength ''abcde'' ''abcdX'' 4096 = 4 \<and> minPrefix (length ''abcde'') = 4
   \<and> 10 * commonPrefixLength ''abcde'' ''abcdX'' 4096 < 9 * length ''abcde''
   \<and> mergeStreamingChunk ''abcde'' ''abcdX'' = \<lparr>next = ''abcdX'', appended = ''X''\<rparr>"
  by (simp add: mergeStreamingChunk_def commonPrefixLength_def commonPrefixLoop.simps
      minPrefix_def Let_def CR_def LF_def)

section \<open>Whisper transcription engine: properties\<close>

subsection \<open>Every stage returns a text or an error\<close>

lemma truthy_Some: "truthy t \<Longrightarrow> \<exists>s. t = Some s"
  by (cases t) auto

lemma transcribeWithWhisperCppFile_textXorError:
  "transcribeWithWhisperCppFile deps b m = Returned r \<Longrightarrow> textXorError r"
  by (auto simp: transcribeWithWhisperCppFile_def modelNotFound_def textXorError_def Let_def
      split: option.splits if_splits sum.splits prod.splits)

lemma localAttempt_textXorError: "textXorError (localAttempt deps b m)"
  by (auto simp: localAttempt_def textXorError_def split: outcome.splits
      dest: transcribeWithWhisperCppFile_textXorError[unfolded textXorError_def])

lemma retryStage_Inl:
  "retryStage deps b m ok oe ns = Inl r \<Longrightarrow> textXorError r \<and> prefix ns (notes r)"
  by (auto simp: retryStage_def textXorError_def Let_def dest: truthy_Some
      split: option.splits if_splits sum.splits)

lemma retryStage_Inr:
  "retryStage deps b m ok oe ns = Inr (oe1, b1, m1, ns1) \<Longrightarrow> prefix ns ns1"
  by (auto simp: retryStage_def Let_def split: option.splits if_splits sum.splits)

lemma falStage_textXorError: "textXorError (falStage deps b m ok fk oe ns)"
  by (auto simp: falStage_def textXorError_def Let_def dest: truthy_Some split: option.splits sum.splits)

lemma falStage_notes: "prefix ns (notes (falStage deps b m ok fk oe ns))"
  by (auto simp: falStage_def Let_def split: option.splits sum.splits)

lemma remoteChain_textXorError: "textXorError (remoteChain deps b m f ok fk ns)"
  by (auto simp: remoteChain_def Let_def falStage_textXorError textXorError_def[of "\<lparr>text = _, provider = _, error = _, notes = _\<rparr>"]
      dest: truthy_Some retryStage_Inl split: sum.splits prod.splits)

lemma remoteChain_notes: "prefix ns (notes (remoteChain deps b m f ok fk ns))"
  by (auto simp: remoteChain_def Let_def split: sum.splits prod.splits
      dest: retryStage_Inl retryStage_Inr intro: prefix_order.trans[OF _ falStage_notes])

subsection \<open>The two entry points\<close>

lemma notesAfterLocal_success:
  "isWhisperCppReady deps \<Longrightarrow> truthy (text (localAttempt deps b m)) \<Longrightarrow>
   notesAfterLocal deps b m = notes (localAttempt deps b m)"
  using localAttempt_textXorError[of deps b m]
  by (cases "text (localAttempt deps b m)")
     (auto simp: notesAfterLocal_def localFallbackNotes_def textXorError_def)

lemma segmentLoop_textXorError:
  assumes "\<And>b m f r. rec b m f ok fk = Some (Returned r) \<Longrightarrow> textXorError r"
    and "segmentLoop rec ok fk files parts used ns = Some (Returned r)"
  shows "textXorError r \<and> notes r = ns"
  using assms(2)
proof (induction files arbitrary: parts used)
  case Nil
  then show ?case by (auto simp: textXorError_def)
next
  case (Cons f files)
  then show ?case
    by (auto simp: Let_def textXorError_def split: option.splits outcome.splits if_splits)
qed

lemma file_body_inv:
  assumes rec: "\<And>b m f r. rec b m f ok fk = Some (Returned r) \<Longrightarrow> textXorError r"
    and ret: "transcribeMediaFileWithWhisper_body rec deps b m f ok fk secs = Some (Returned r)"
  shows "textXorError r \<and> prefix (notesAfterLocal deps b m) (notes r)"
proof (cases "isWhisperCppReady deps \<and> truthy (text (localAttempt deps b m))")
  case True
  with ret have "r = localAttempt deps b m"
    by (simp add: transcribeMediaFileWithWhisper_body_def Let_def)
  with True show ?thesis
    by (simp add: localAttempt_textXorError notesAfterLocal_success)
next
  case False
  let ?ns = "notesAfterLocal deps b m"
  show ?thesis
  proof (cases "\<not> truthy ok \<and> \<not> truthy fk")
    case True
    with False ret show ?thesis
      by (auto simp: transcribeMediaFileWithWhisper_body_def Let_def noProvidersAvailable_def textXorError_def)
  next
    case keys: False
    show ?thesis
    proof (cases "truthy ok \<and> MAX_OPENAI_UPLOAD_BYTES < length b")
      case big: True
      show ?thesis
      proof (cases "isFfmpegAvailable deps")
        case noff: False
        with False keys big ret obtain p where
          p: "rec (take MAX_OPENAI_UPLOAD_BYTES b) m f ok fk = Some (Returned p)"
          and r: "r = p\<lparr>notes := (?ns @ [''Media too large for Whisper upload ('' @ formatBytes deps (length b) @ ''); install ffmpeg to enable chunked transcription'']) @ notes p\<rparr>"
          by (auto simp: transcribeMediaFileWithWhisper_body_def Let_def
              split: option.splits outcome.splits)
        from rec[OF p] r show ?thesis by (simp add: textXorError_def)
      next
        case ff: True
        from False keys big ff ret obtain listing where
          l: "runFfmpegSegment deps b secs = Inr listing"
          by (cases "runFfmpegSegment deps b secs")
             (auto simp: transcribeMediaFileWithWhisper_body_def Let_def)
        show ?thesis
        proof (cases "segmentFiles listing = []")
          case True
          with False keys big ff ret l show ?thesis
            by (auto simp: transcribeMediaFileWithWhisper_body_def Let_def textXorError_def)
        next
          case ne: False
          let ?ns1 = "?ns @ [''ffmpeg chunked media into '' @ digitsOf (length (segmentFiles listing)) @ '' parts ('' @ digitsOf secs @ ''s each)'']"
          from False keys big ff ret l ne
          have "segmentLoop rec ok fk (segmentFiles listing) [] None ?ns1 = Some (Returned r)"
            by (auto simp: transcribeMediaFileWithWhisper_body_def Let_def)
          from segmentLoop_textXorError[OF rec this] show ?thesis by simp
        qed
      qed
    next
      case small: False
      with False keys ret obtain p where
        p: "rec b m f ok fk = Some (Returned p)" and r: "r = p\<lparr>notes := ?ns @ notes p\<rparr>"
        by (auto simp: transcribeMediaFileWithWhisper_body_def Let_def
            split: option.splits outcome.splits)
      from rec[OF p] r show ?thesis by (simp add: textXorError_def)
    qed
  qed
qed

lemma media_body_inv:
  assumes rec: "\<And>r. rec b m f ok fk DEFAULT_SEGMENT_SECONDS = Some (Returned r) \<Longrightarrow>
                  textXorError r \<and> prefix (notesAfterLocal deps b m) (notes r)"
    and ret: "transcribeMediaWithWhisper_body rec deps b m f ok fk = Some (Returned r)"
  shows "textXorError r \<and> prefix (notesAfterLocal deps b m) (notes r)"
proof (cases "isWhisperCppReady deps \<and> truthy (text (localAttempt deps b m))")
  case True
  with ret have "r = localAttempt deps b m"
    by (simp add: transcribeMediaWithWhisper_body_def Let_def)
  with True show ?thesis
    by (simp add: localAttempt_textXorError notesAfterLocal_success)
next
  case False
  show ?thesis
  proof (cases "\<not> truthy ok \<and> \<not> truthy fk")
    case True
    with False ret show ?thesis
      by (auto simp: transcribeMediaWithWhisper_body_def Let_def noProvidersAvailable_def textXorError_def)
  next
    case keys: False
    show ?thesis
    proof (cases "truthy ok \<and> MAX_OPENAI_UPLOAD_BYTES < length b")
      case big: True
      show ?thesis
      proof (cases "isFfmpegAvailable deps")
        case True
        with False keys big ret have "rec b m f ok fk DEFAULT_SEGMENT_SECONDS = Some (Returned r)"
          by (auto simp: transcribeMediaWithWhisper_body_def Let_def)
        then show ?thesis by (rule rec)
      next
        case noff: False
        let ?ns1 = "notesAfterLocal deps b m @ [''Media too large for Whisper upload ('' @ formatBytes deps (length b)
                    @ ''); transcribing first '' @ formatBytes deps MAX_OPENAI_UPLOAD_BYTES
                    @ '' only (install ffmpeg for full transcription)'']"
        from False keys big noff ret
        have r: "r = remoteChain deps (take MAX_OPENAI_UPLOAD_BYTES b) m f ok fk ?ns1"
          by (auto simp: transcribeMediaWithWhisper_body_def Let_def)
        have "prefix ?ns1 (notes r)" unfolding r by (rule remoteChain_notes)
        then have "prefix (notesAfterLocal deps b m) (notes r)"
          by (rule append_prefixD)
        then show ?thesis using r remoteChain_textXorError by simp
      qed
    next
      case small: False
      with False keys ret have r: "r = remoteChain deps b m f ok fk (notesAfterLocal deps b m)"
        by (auto simp: transcribeMediaWithWhisper_body_def Let_def)
      then show ?thesis using remoteChain_textXorError remoteChain_notes by simp
    qed
  qed
qed

lemma media_inv:
  "transcribeMediaWithWhisper n deps b m f ok fk = Some (Returned r) \<Longrightarrow>
   textXorError r \<and> prefix (notesAfterLocal deps b m) (notes r)"
proof (induction n arbitrary: b m f ok fk r)
  case 0
  then show ?case by simp
next
  case (Suc n)
  have inner: "\<And>b m f ok fk r. transcribeMediaWithWhisper n deps b m f ok fk = Some (Returned r) \<Longrightarrow> textXorError r"
    using Suc.IH by blast
  show ?case
  proof (rule media_body_inv)
    show "transcribeMediaWithWhisper_body
            (transcribeMediaFileWithWhisper_body (transcribeMediaWithWhisper n deps) deps)
            deps b m f ok fk = Some (Returned r)"
      using Suc.prems by simp
  next
    fix r'
    assume "transcribeMediaFileWithWhisper_body (transcribeMediaWithWhisper n deps) deps b m f ok fk
              DEFAULT_SEGMENT_SECONDS = Some (Returned r')"
    then show "textXorError r' \<and> prefix (notesAfterLocal deps b m) (notes r')"
      by (rule file_body_inv[rotated]) (rule inner)
  qed
qed

subsection \<open>The bound on the call depth\<close>

text \<open>A call that settles within a bound settles the same way within every larger bound:
  the bound only cuts off, it never changes a result.\<close>

lemma segmentLoop_mono:
  assumes "\<And>b m f x. rec b m f ok fk = Some x \<Longrightarrow> rec' b m f ok fk = Some x"
    and "segmentLoop rec ok fk files parts used ns = Some x"
  shows "segmentLoop rec' ok fk files parts used ns = Some x"
  using assms(2)
proof (induction files arbitrary: parts used)
  case Nil
  then show ?case by simp
next
  case (Cons f files)
  from Cons.prems obtain y where y: "rec (snd f) ''audio/mpeg'' (Some (fst f)) ok fk = Some y"
    by (auto split: option.splits)
  then have y': "rec' (snd f) ''audio/mpeg'' (Some (fst f)) ok fk = Some y" by (rule assms(1))
  show ?case
  proof (cases y)
    case (Thrown e)
    with Cons.prems y y' show ?thesis by auto
  next
    case (Returned r)
    with Cons.prems y y' Cons.IH show ?thesis
      by (auto simp: Let_def split: if_splits)
  qed
qed

lemma file_body_mono:
  assumes "\<And>b m f x. rec b m f ok fk = Some x \<Longrightarrow> rec' b m f ok fk = Some x"
    and "transcribeMediaFileWithWhisper_body rec deps b m f ok fk secs = Some x"
  shows "transcribeMediaFileWithWhisper_body rec' deps b m f ok fk secs = Some x"
  using assms(2) assms(1) segmentLoop_mono[of rec ok fk rec', OF assms(1)]
  by (auto simp: transcribeMediaFileWithWhisper_body_def Let_def
      split: if_splits option.splits outcome.splits sum.splits)

lemma media_body_mono:
  assumes "\<And>x. rec b m f ok fk DEFAULT_SEGMENT_SECONDS = Some x \<Longrightarrow>
                rec' b m f ok fk DEFAULT_SEGMENT_SECONDS = Some x"
    and "transcribeMediaWithWhisper_body rec deps b m f ok fk = Some x"
  shows "transcribeMediaWithWhisper_body rec' deps b m f ok fk = Some x"
  using assms(2) assms(1)
  by (auto simp: transcribeMediaWithWhisper_body_def Let_def split: if_splits)

lemma transcribeMediaWithWhisper_Suc:
  "transcribeMediaWithWhisper n deps b m f ok fk = Some x \<Longrightarrow>
   transcribeMediaWithWhisper (Suc n) deps b m f ok fk = Some x"
proof (induction n arbitrary: b m f ok fk x)
  case 0
  then show ?case by simp
next
  case (Suc n)
  have "transcribeMediaWithWhisper_body
          (transcribeMediaFileWithWhisper_body (transcribeMediaWithWhisper (Suc n) deps) deps)
          deps b m f ok fk = Some x"
  proof (rule media_body_mono)
    show "transcribeMediaWithWhisper_body
            (transcribeMediaFileWithWhisper_body (transcribeMediaWithWhisper n deps) deps)
            deps b m f ok fk = Some x"
      using Suc.prems by simp
  next
    fix y
    assume "transcribeMediaFileWithWhisper_body (transcribeMediaWithWhisper n deps) deps
              b m f ok fk DEFAULT_SEGMENT_SECONDS = Some y"
    then show "transcribeMediaFileWithWhisper_body (transcribeMediaWithWhisper (Suc n) deps) deps
              b m f ok fk DEFAULT_SEGMENT_SECONDS = Some y"
      by (rule file_body_mono[rotated]) (rule Suc.IH)
  qed
  then show ?case by simp
qed

lemma transcribeMediaWithWhisper_bound_irrelevant:
  assumes "n \<le> n'" and "transcribeMediaWithWhisper n deps b m f ok fk = Some x"
  shows "transcribeMediaWithWhisper n' deps b m f ok fk = Some x"
  using assms
proof (induction rule: dec_induct)
  case base
  then show ?case .
next
  case (step k)
  then show ?case by (intro transcribeMediaWithWhisper_Suc) blast
qed

subsection \<open>Results of the engine\<close>

text \<open>
  Claim C7. When no transcription provider is available at all (the local whisper.cpp is
  not ready, and neither an OpenAI key nor a FAL key is set), \<open>transcribeMediaWithWhisper\<close>
  returns, at any positive bound: \<open>text\<close> is \<open>null\<close>, \<open>provider\<close> is \<open>null\<close>, and the error is
  the configuration message that names the three missing providers.
\<close>

theorem whisper_no_providers_available:
  "\<not> isWhisperCppReady deps \<Longrightarrow> \<not> truthy ok \<Longrightarrow> \<not> truthy fk \<Longrightarrow>
   transcribeMediaWithWhisper (Suc n) deps input mediaType filename ok fk =
     Some (Returned
       \<lparr>text = None, provider = None,
        error = Some (Error (''No transcription providers available ''
                  @ ''(install whisper-cpp or set OPENAI_API_KEY or FAL_KEY)'')),
        notes = []\<rparr>)"
  by (simp add: transcribeMediaWithWhisper_body_def Let_def notesAfterLocal_def
      noProvidersAvailable_def)

lemma offline_not_ready: "\<not> isWhisperCppReady offlineWhisperDeps"
  by (simp add: isWhisperCppReady_def offlineWhisperDeps_def)

text \<open>Claim C7 in the environment where nothing is installed, with no OpenAI key and an
  empty FAL key.\<close>

theorem whisper_no_providers_available_witness:
  "\<not> isWhisperCppReady offlineWhisperDeps \<and> \<not> truthy None \<and> \<not> truthy (Some [])
   \<and> transcribeMediaWithWhisper (Suc 0) offlineWhisperDeps [1, 2, 3] ''audio/mpeg''
        (Some ''clip.mp3'') None (Some []) =
     Some (Returned
       \<lparr>text = None, provider = None,
        error = Some (Error ''No transcription providers available (install whisper-cpp or set OPENAI_API_KEY or FAL_KEY)''),
        notes = []\<rparr>)"
  using whisper_no_providers_available[OF offline_not_ready, of None "Some []" 0 "[1, 2, 3]" "''audio/mpeg''" "Some ''clip.mp3''"]
    offline_not_ready
  by simp

text \<open>
  Whatever the environment answers and however deep the chunking goes, a result that
  \<open>transcribeMediaWithWhisper\<close> returns has exactly one of \<open>text\<close> and \<open>error\<close> set: a
  success has a text and no error, a failure has an error and no text.
\<close>

lemma whisper_text_xor_error:
  "transcribeMediaWithWhisper n deps input mediaType filename ok fk = Some (Returned r) \<Longrightarrow>
   (text r = None \<longleftrightarrow> error r \<noteq> None)"
  using media_inv[of n deps input mediaType filename ok fk r] by (simp add: textXorError_def)

text \<open>
  The notes of a chunked result are the notes the file call had before the loop over the
  segments, whatever the transcriptions of the segments noted.
\<close>

lemma segmentLoop_notes:
  "segmentLoop rec ok fk files parts used ns = Some (Returned r) \<Longrightarrow> notes r = ns"
proof (induction files arbitrary: parts used)
  case Nil
  then show ?case by auto
next
  case (Cons f files)
  then show ?case
    by (auto simp: Let_def split: option.splits outcome.splits if_splits)
qed

text \<open>Results exist: a call that does not chunk returns at any positive bound.\<close>

lemma transcribeMediaWithWhisper_settles:
  "length input \<le> MAX_OPENAI_UPLOAD_BYTES \<or> \<not> isFfmpegAvailable deps \<or> \<not> truthy ok \<Longrightarrow>
   \<exists>r. transcribeMediaWithWhisper (Suc n) deps input mediaType filename ok fk = Some (Returned r)"
  by (auto simp: transcribeMediaWithWhisper_body_def Let_def)

subsection \<open>Chunked transcription\<close>

lemma segmentLoop_failure:
  assumes "k < length files"
    and "\<forall>i<k. \<exists>r. rec (snd (files ! i)) ''audio/mpeg'' (Some (fst (files ! i))) ok fk = Some (Returned r)
            \<and> \<not> (error r \<noteq> None \<and> \<not> truthy (text r))"
    and "rec (snd (files ! k)) ''audio/mpeg'' (Some (fst (files ! k))) ok fk = Some (Returned rk)"
    and "error rk = Some e" and "\<not> truthy (text rk)"
  shows "\<exists>r. segmentLoop rec ok fk files parts used ns = Some (Returned r)
           \<and> text r = None \<and> error r = Some e \<and> notes r = ns"
  using assms
proof (induction files arbitrary: k parts used)
  case Nil
  then show ?case by simp
next
  case (Cons f files)
  show ?case
  proof (cases k)
    case 0
    with Cons.prems show ?thesis by (simp add: Let_def)
  next
    case (Suc j)
    from Cons.prems(2) Suc obtain r0 where
      r0: "rec (snd f) ''audio/mpeg'' (Some (fst f)) ok fk = Some (Returned r0)"
      and ok0: "\<not> (error r0 \<noteq> None \<and> \<not> truthy (text r0))"
      by (metis nth_Cons_0 zero_less_Suc)
    have "\<forall>i<j. \<exists>r. rec (snd (files ! i)) ''audio/mpeg'' (Some (fst (files ! i))) ok fk = Some (Returned r)
            \<and> \<not> (error r \<noteq> None \<and> \<not> truthy (text r))"
      using Cons.prems(2) Suc by (metis Suc_less_eq nth_Cons_Suc)
    moreover have "j < length files" using Cons.prems(1) Suc by simp
    moreover have "rec (snd (files ! j)) ''audio/mpeg'' (Some (fst (files ! j))) ok fk = Some (Returned rk)"
      using Cons.prems(3) Suc by simp
    ultimately have "\<exists>r. segmentLoop rec ok fk files
        (if truthy (text r0) then parts @ [keyOf (text r0)] else parts)
        (if used = None \<and> provider r0 \<noteq> None then provider r0 else used) ns = Some (Returned r)
           \<and> text r = None \<and> error r = Some e \<and> notes r = ns"
      using Cons.prems(4,5) by (intro Cons.IH)
    with r0 ok0 show ?thesis by (auto simp: Let_def)
  qed
qed

text \<open>
  Claim C9. Take a call of \<open>transcribeMediaFileWithWhisper\<close> that chunks: the local
  whisper.cpp gave no text, an OpenAI key is set, the file exceeds the upload limit, ffmpeg
  is available and wrote the segments. If the segments before segment \<open>k\<close> are transcribed
  without a failure and the transcription of segment \<open>k\<close> returns an error and no text, the
  whole call returns \<open>text = null\<close> with that segment's error: the text of the earlier
  segments is not returned.
\<close>

theorem chunked_segment_failure_discards_text:
  assumes "\<not> (isWhisperCppReady deps \<and> truthy (text (localAttempt deps fileBytes mediaType)))"
    and "truthy ok"
    and "MAX_OPENAI_UPLOAD_BYTES < length fileBytes"
    and "isFfmpegAvailable deps"
    and "runFfmpegSegment deps fileBytes segmentSeconds = Inr listing"
    and "k < length (segmentFiles listing)"
    and "\<forall>i<k. \<exists>r. transcribeMediaWithWhisper n deps (snd (segmentFiles listing ! i)) ''audio/mpeg''
                      (Some (fst (segmentFiles listing ! i))) ok fk = Some (Returned r)
            \<and> \<not> (error r \<noteq> None \<and> \<not> truthy (text r))"
    and "transcribeMediaWithWhisper n deps (snd (segmentFiles listing ! k)) ''audio/mpeg''
           (Some (fst (segmentFiles listing ! k))) ok fk = Some (Returned rk)"
    and "error rk = Some e" and "\<not> truthy (text rk)"
  shows "\<exists>r. transcribeMediaFileWithWhisper n deps fileBytes mediaType filename ok fk segmentSeconds
              = Some (Returned r)
           \<and> text r = None \<and> error r = Some e"
proof -
  let ?files = "segmentFiles listing"
  let ?ns = "notesAfterLocal deps fileBytes mediaType
      @ [''ffmpeg chunked media into '' @ digitsOf (length ?files) @ '' parts (''
         @ digitsOf segmentSeconds @ ''s each)'']"
  from assms(6) have ne: "?files \<noteq> []" by auto
  have "transcribeMediaFileWithWhisper n deps fileBytes mediaType filename ok fk segmentSeconds =
      segmentLoop (transcribeMediaWithWhisper n deps) ok fk ?files [] None ?ns"
    using assms(1-5) ne
    by (auto simp: transcribeMediaFileWithWhisper_def transcribeMediaFileWithWhisper_body_def Let_def)
  moreover from segmentLoop_failure[where rec = "transcribeMediaWithWhisper n deps"
      and files = "segmentFiles listing" and ok = ok and fk = fk, OF assms(6) assms(7) assms(8) assms(9) assms(10)]
  have "\<exists>r. segmentLoop (transcribeMediaWithWhisper n deps) ok fk ?files [] None ?ns = Some (Returned r)
           \<and> text r = None \<and> error r = Some e \<and> notes r = ?ns" .
  ultimately show ?thesis by auto
qed

subsection \<open>Examples\<close>

lemma chunking_not_ready: "\<not> isWhisperCppReady chunkingWhisperDeps"
  by (simp add: isWhisperCppReady_def chunkingWhisperDeps_def offlineWhisperDeps_def)

lemma chunking_segmentFiles:
  "segmentFiles [(''part-001.mp3'', [2]), (''part-000.mp3'', [1]), (''list.txt'', [])] =
     [(''part-000.mp3'', [1]), (''part-001.mp3'', [2])]"
  by (simp add: segmentFiles_def suffix_def)

lemma chunking_first_segment:
  "transcribeMediaWithWhisper (Suc 0) chunkingWhisperDeps [1] ''audio/mpeg''
     (Some ''part-000.mp3'') (Some ''sk-test'') None =
   Some (Returned \<lparr>text = Some ''first part'', provider = Some Openai, error = None, notes = []\<rparr>)"
  using chunking_not_ready
  by (simp add: transcribeMediaWithWhisper_body_def Let_def notesAfterLocal_def
      MAX_OPENAI_UPLOAD_BYTES_def remoteChain_def chunkingWhisperDeps_def offlineWhisperDeps_def)

lemma server_error_no_retry:
  "\<not> shouldRetryOpenAiViaFfmpeg
        (wrapError ''OpenAI transcription failed'' (Error ''OpenAI transcription failed (500)''))"
  by (simp add: shouldRetryOpenAiViaFfmpeg_def wrapError_def toLowerCase_def toLowerChar_def Let_def)

lemma chunking_second_segment:
  "transcribeMediaWithWhisper (Suc 0) chunkingWhisperDeps [2] ''audio/mpeg''
     (Some ''part-001.mp3'') (Some ''sk-test'') None =
   Some (Returned \<lparr>text = None, provider = Some Openai,
      error = Some (Error ''OpenAI transcription failed: OpenAI transcription failed (500)''),
      notes = []\<rparr>)"
proof -
  have r: "remoteChain chunkingWhisperDeps [2] ''audio/mpeg'' (Some ''part-001.mp3'')
      (Some ''sk-test'') None [] =
     \<lparr>text = None, provider = Some Openai,
      error = Some (wrapError ''OpenAI transcription failed'' (Error ''OpenAI transcription failed (500)'')),
      notes = []\<rparr>"
    using server_error_no_retry
    by (simp add: remoteChain_def retryStage_def falStage_def Let_def
        chunkingWhisperDeps_def offlineWhisperDeps_def)
  show ?thesis
    using chunking_not_ready
    by (simp add: transcribeMediaWithWhisper_body_def Let_def notesAfterLocal_def
      MAX_OPENAI_UPLOAD_BYTES_def r) (simp add: wrapError_def)
qed

text \<open>Claim C9 on a file of 24 MiB and one byte, cut into two segments: the first is
  transcribed, the second fails, and the call returns the second's error and no text.\<close>

theorem chunked_segment_failure_discards_text_witness:
  "\<exists>r. transcribeMediaFileWithWhisper (Suc 0) chunkingWhisperDeps (replicate 25165825 0)
          ''video/mp4'' (Some ''talk.mp4'') (Some ''sk-test'') None 600 = Some (Returned r)
       \<and> text r = None
       \<and> error r = Some (Error ''OpenAI transcription failed: OpenAI transcription failed (500)'')"
proof -
  let ?listing = "[(''part-001.mp3'', [2]), (''part-000.mp3'', [1]), (''list.txt'', [])] :: (string \<times> bytes) list"
  let ?rk = "\<lparr>text = None, provider = Some Openai,
      error = Some (Error ''OpenAI transcription failed: OpenAI transcription failed (500)''),
      notes = []\<rparr>"
  have h1: "\<not> (isWhisperCppReady chunkingWhisperDeps
      \<and> truthy (text (localAttempt chunkingWhisperDeps (replicate 25165825 0) ''video/mp4'')))"
    using chunking_not_ready by simp
  have h2: "truthy (Some ''sk-test'')" by simp
  have h3: "MAX_OPENAI_UPLOAD_BYTES < length (replicate 25165825 (0::8 word))"
    by (simp add: MAX_OPENAI_UPLOAD_BYTES_def)
  have h4: "isFfmpegAvailable chunkingWhisperDeps"
    by (simp add: chunkingWhisperDeps_def)
  have h5: "runFfmpegSegment chunkingWhisperDeps (replicate 25165825 0) 600 = Inr ?listing"
    by (simp add: chunkingWhisperDeps_def)
  have h6: "1 < length (segmentFiles ?listing)"
    by (simp add: chunking_segmentFiles)
  have h7: "\<forall>i<1. \<exists>r. transcribeMediaWithWhisper (Suc 0) chunkingWhisperDeps
                      (snd (segmentFiles ?listing ! i)) ''audio/mpeg''
                      (Some (fst (segmentFiles ?listing ! i))) (Some ''sk-test'') None = Some (Returned r)
            \<and> \<not> (error r \<noteq> None \<and> \<not> truthy (text r))"
    by (simp add: chunking_segmentFiles chunking_first_segment del: transcribeMediaWithWhisper.simps)
  have h8: "transcribeMediaWithWhisper (Suc 0) chunkingWhisperDeps (snd (segmentFiles ?listing ! 1))
      ''audio/mpeg'' (Some (fst (segmentFiles ?listing ! 1))) (Some ''sk-test'') None = Some (Returned ?rk)"
    by (simp add: chunking_segmentFiles chunking_second_segment del: transcribeMediaWithWhisper.simps)
  have h9: "error ?rk = Some (Error ''OpenAI transcription failed: OpenAI transcription failed (500)'')"
    by simp
  have h10: "\<not> truthy (text ?rk)" by simp
  show ?thesis
    by (rule chunked_segment_failure_discards_text[OF h1 h2 h3 h4 h5 h6 h7 h8 h9 h10])
qed

subsection \<open>Notes in chunked transcription\<close>

lemma fallback_not_ready: "\<not> isWhisperCppReady fallbackWhisperDeps"
  by (simp add: isWhisperCppReady_def fallbackWhisperDeps_def offlineWhisperDeps_def)

lemma fetch_failed_no_retry:
  "\<not> shouldRetryOpenAiViaFfmpeg (wrapError ''OpenAI transcription failed'' (Error ''fetch failed''))"
  by (simp add: shouldRetryOpenAiViaFfmpeg_def wrapError_def toLowerCase_def toLowerChar_def Let_def)

lemma audio_mpeg_lower: "toLowerCase ''audio/mpeg'' = ''audio/mpeg''"
  by (simp add: toLowerCase_def toLowerChar_def Let_def)

lemma fallback_segment:
  assumes "b = [1] \<or> b = [2]"
  shows "transcribeMediaWithWhisper (Suc 0) fallbackWhisperDeps b ''audio/mpeg'' f
     (Some ''sk-test'') (Some ''fal-test'') =
   Some (Returned \<lparr>text = Some (if b = [1] then ''first part'' else ''second part''),
      provider = Some Fal, error = None,
      notes = [''OpenAI transcription failed; falling back to FAL: OpenAI transcription failed: fetch failed'']\<rparr>)"
proof -
  have r: "remoteChain fallbackWhisperDeps b ''audio/mpeg'' f (Some ''sk-test'') (Some ''fal-test'') [] =
     \<lparr>text = Some (if b = [1] then ''first part'' else ''second part''),
      provider = Some Fal, error = None,
      notes = [''OpenAI transcription failed; falling back to FAL: ''
                 @ message (wrapError ''OpenAI transcription failed'' (Error ''fetch failed''))]\<rparr>"
    using fetch_failed_no_retry
    by (simp add: remoteChain_def retryStage_def falStage_def Let_def audio_mpeg_lower
        fallbackWhisperDeps_def offlineWhisperDeps_def)
  show ?thesis
    using fallback_not_ready assms
    by (auto simp add: transcribeMediaWithWhisper_body_def Let_def notesAfterLocal_def
      MAX_OPENAI_UPLOAD_BYTES_def r wrapError_def)
qed

lemma fallback_segmentFiles:
  "segmentFiles [(''part-000.mp3'', [1]), (''part-001.mp3'', [2])] =
     [(''part-000.mp3'', [1]), (''part-001.mp3'', [2])]"
  by (simp add: segmentFiles_def suffix_def)

lemma fallback_file:
  "transcribeMediaFileWithWhisper (Suc 0) fallbackWhisperDeps (replicate 25165825 0) ''audio/mpeg''
     (Some ''talk.mp3'') (Some ''sk-test'') (Some ''fal-test'') DEFAULT_SEGMENT_SECONDS =
   Some (Returned \<lparr>text = Some (''first part'' @ [LF, LF] @ ''second part''), provider = Some Fal,
      error = None, notes = [''ffmpeg chunked media into 2 parts (600s each)'']\<rparr>)"
proof -
  have seg: "runFfmpegSegment fallbackWhisperDeps (replicate 25165825 0) DEFAULT_SEGMENT_SECONDS
      = Inr [(''part-000.mp3'', [1]), (''part-001.mp3'', [2])]"
    and ff: "isFfmpegAvailable fallbackWhisperDeps"
    by (simp_all add: fallbackWhisperDeps_def)
  have d: "digitsOf DEFAULT_SEGMENT_SECONDS = ''600''" "digitsOf (Suc (Suc 0)) = ''2''"
    by (simp_all add: DEFAULT_SEGMENT_SECONDS_def digitsOf.simps)
  show ?thesis
    using fallback_not_ready ff
    by (simp add: transcribeMediaFileWithWhisper_def transcribeMediaFileWithWhisper_body_def
        Let_def notesAfterLocal_def MAX_OPENAI_UPLOAD_BYTES_def seg fallback_segmentFiles
        fallback_segment d
        del: transcribeMediaWithWhisper.simps)
qed

text \<open>
  Claim C8 on a chunked call. An upload of 24 MiB and one byte is cut into two segments. No
  request to OpenAI gets through, so each segment is transcribed by FAL, and the result of
  each segment carries the note that OpenAI failed (the first equation). The whole call
  succeeds with a text and no error, but its notes hold the chunking note only (the second
  equation): the notes of the segments have not accumulated. The loop over the segments
  reads \<open>provider\<close>, \<open>error\<close> and \<open>text\<close> of a segment's result and never its \<open>notes\<close>, where
  the two other nested calls of \<open>transcribeMediaFileWithWhisper\<close> push the notes of the
  nested result.
\<close>

theorem chunked_transcription_drops_segment_notes:
  "transcribeMediaWithWhisper (Suc 0) fallbackWhisperDeps [1] ''audio/mpeg'' (Some ''part-000.mp3'')
     (Some ''sk-test'') (Some ''fal-test'') =
   Some (Returned \<lparr>text = Some ''first part'', provider = Some Fal, error = None,
      notes = [''OpenAI transcription failed; falling back to FAL: OpenAI transcription failed: fetch failed'']\<rparr>)
   \<and> transcribeMediaWithWhisper (Suc (Suc 0)) fallbackWhisperDeps (replicate 25165825 0) ''audio/mpeg''
     (Some ''talk.mp3'') (Some ''sk-test'') (Some ''fal-test'') =
   Some (Returned \<lparr>text = Some (''first part'' @ [LF, LF] @ ''second part''), provider = Some Fal,
      error = None, notes = [''ffmpeg chunked media into 2 parts (600s each)'']\<rparr>)"
proof -
  have ff: "isFfmpegAvailable fallbackWhisperDeps"
    by (simp add: fallbackWhisperDeps_def)
  have "transcribeMediaWithWhisper (Suc (Suc 0)) fallbackWhisperDeps (replicate 25165825 0) ''audio/mpeg''
     (Some ''talk.mp3'') (Some ''sk-test'') (Some ''fal-test'') =
     transcribeMediaFileWithWhisper (Suc 0) fallbackWhisperDeps (replicate 25165825 0) ''audio/mpeg''
     (Some ''talk.mp3'') (Some ''sk-test'') (Some ''fal-test'') DEFAULT_SEGMENT_SECONDS"
    unfolding transcribeMediaWithWhisper.simps(2)[of "Suc 0"] transcribeMediaFileWithWhisper_def
    using fallback_not_ready ff
    by (simp add: transcribeMediaWithWhisper_body_def Let_def MAX_OPENAI_UPLOAD_BYTES_def
        del: transcribeMediaWithWhisper.simps)
  then show ?thesis
    using fallback_segment[of "[1]" "Some ''part-000.mp3''"] fallback_file
    by (simp del: transcribeMediaWithWhisper.simps)
qed

section \<open>YouTube transcript resolver: properties\<close>

text \<open>
  Claim C4. In the explicit mode \<open>yt-dlp\<close>, when the path of the yt-dlp binary is missing
  or both transcription keys are missing, \<open>fetchTranscript\<close> throws an error that names the
  missing configuration, and it has called no fetcher: there is no network or subprocess
  activity and no provider is attempted before the error.
\<close>

theorem fetchTranscript_ytdlp_missing_configuration:
  assumes "youtubeTranscriptMode options = ModeYtDlp"
    and "\<not> truthy (ytDlpPath options)
         \<or> (\<not> truthy (openaiApiKey options) \<and> \<not> truthy (falApiKey options))"
  shows "fetchTranscript deps context options =
     ([], Inl (Error (if \<not> truthy (ytDlpPath options)
                      then ''Missing YT_DLP_PATH for --youtube yt-dlp''
                      else ''Missing OPENAI_API_KEY or FAL_KEY for --youtube yt-dlp'')))"
  using assms by (auto simp: fetchTranscript_def hasYtDlpCredentials_def Let_def)

text \<open>Claim C4 with a binary path and no transcription key.\<close>

theorem fetchTranscript_ytdlp_missing_configuration_witness:
  "fetchTranscript silentYoutubeDeps
     \<lparr>url = ''https://www.youtube.com/watch?v=abcdefghijk'', html = Some ''<html></html>'',
      resourceKey = Some ''abcdefghijk''\<rparr>
     \<lparr>youtubeTranscriptMode = ModeYtDlp, apifyApiToken = None,
      ytDlpPath = Some ''/usr/bin/yt-dlp'', openaiApiKey = None, falApiKey = None\<rparr> =
   ([], Inl (Error ''Missing OPENAI_API_KEY or FAL_KEY for --youtube yt-dlp''))"
  using fetchTranscript_ytdlp_missing_configuration[of "\<lparr>youtubeTranscriptMode = ModeYtDlp, apifyApiToken = None,
      ytDlpPath = Some ''/usr/bin/yt-dlp'', openaiApiKey = None, falApiKey = None\<rparr>"
      silentYoutubeDeps
      "\<lparr>url = ''https://www.youtube.com/watch?v=abcdefghijk'', html = Some ''<html></html>'',
      resourceKey = Some ''abcdefghijk''\<rparr>"]
  by simp

text \<open>
  Claim C10. In every mode, once the configuration checks of mode \<open>yt-dlp\<close> have passed, a
  context whose \<open>html\<close> is \<open>null\<close> makes \<open>fetchTranscript\<close> return \<open>text = null\<close> and
  \<open>source = null\<close> with an empty \<open>attemptedProviders\<close>, without calling any fetcher, whatever
  the URL and the resource key are.
\<close>

theorem fetchTranscript_without_html:
  assumes "html context = None"
    and "\<not> (youtubeTranscriptMode options = ModeYtDlp
            \<and> (\<not> truthy (ytDlpPath options) \<or> \<not> hasYtDlpCredentials options))"
  shows "fetchTranscript deps context options =
     ([], Inr \<lparr>resultText = None, source = None, metadata = None, attemptedProviders = [],
               resultNotes = None\<rparr>)"
  using assms by (auto simp: fetchTranscript_def neverTried_def Let_def)

text \<open>Claim C10 in mode \<open>auto\<close>, with a video id as resource key.\<close>

theorem fetchTranscript_without_html_witness:
  "fetchTranscript silentYoutubeDeps
     \<lparr>url = ''https://www.youtube.com/watch?v=abcdefghijk'', html = None,
      resourceKey = Some ''abcdefghijk''\<rparr>
     \<lparr>youtubeTranscriptMode = ModeAuto, apifyApiToken = Some ''apify_token'',
      ytDlpPath = None, openaiApiKey = None, falApiKey = None\<rparr> =
   ([], Inr \<lparr>resultText = None, source = None, metadata = None, attemptedProviders = [],
             resultNotes = None\<rparr>)"
  using fetchTranscript_without_html[of "\<lparr>url = ''https://www.youtube.com/watch?v=abcdefghijk'', html = None,
      resourceKey = Some ''abcdefghijk''\<rparr>"
      "\<lparr>youtubeTranscriptMode = ModeAuto, apifyApiToken = Some ''apify_token'',
      ytDlpPath = None, openaiApiKey = None, falApiKey = None\<rparr>" silentYoutubeDeps]
  by simp

text \<open>
  Claim C3 in mode \<open>auto\<close> with no Apify token. The page has a transcript config, the
  transcript endpoint is asked and yields no text, the caption tracks yield no text. The
  resolver then calls the Apify fetcher with the \<open>null\<close> token and records \<open>apify\<close> among the
  attempted providers, between \<open>captionTracks\<close> and \<open>unavailable\<close>: the step is not
  conditional on the token.
\<close>

theorem fetchTranscript_auto_records_apify_without_token:
  "fetchTranscript configuredPageYoutubeDeps
     \<lparr>url = ''https://www.youtube.com/watch?v=abcdefghijk'', html = Some ''<html></html>'',
      resourceKey = Some ''abcdefghijk''\<rparr>
     \<lparr>youtubeTranscriptMode = ModeAuto, apifyApiToken = None,
      ytDlpPath = None, openaiApiKey = None, falApiKey = None\<rparr> =
   ([CalledYoutubei, CalledCaptionTracks, CalledApify None],
    Inr \<lparr>resultText = None, source = Some SrcUnavailable,
         metadata = Some [(''provider'', Some ''youtube''),
                          (''reason'', Some ''no_transcript_available'')],
         attemptedProviders = [SrcYoutubei, SrcCaptionTracks, SrcApify, SrcUnavailable],
         resultNotes = None\<rparr>)"
  by (simp add: fetchTranscript_def hasYtDlpCredentials_def canRunYtDlp_def effectiveVideoId_def
      webStage_def captionTracksStage_def apifyStage_def ytDlpStage_def joinedNotes_def
      configuredPageYoutubeDeps_def silentYoutubeDeps_def trim_def isJsSpace_def Let_def)

text \<open>
  The other stages of mode \<open>auto\<close> are recorded only when their prerequisite is there:
  youtubei needs a transcript config in the page, yt-dlp needs its binary and a
  transcription key.
\<close>

lemma auto_skips_youtubei_without_config:
  assumes "youtubeTranscriptMode options = ModeAuto"
    and "extractYoutubeiTranscriptConfig deps (keyOf (html context)) = None"
    and "fetchTranscript deps context options = (calls, res)"
  shows "CalledYoutubei \<notin> set calls
       \<and> (\<forall>result. res = Inr result \<longrightarrow> SrcYoutubei \<notin> set (attemptedProviders result))"
  using assms
  by (auto simp: fetchTranscript_def webStage_def captionTracksStage_def apifyStage_def
      ytDlpStage_def found_def neverTried_def Let_def
      split: option.splits if_splits)

lemma auto_skips_ytdlp_when_unconfigured:
  assumes "youtubeTranscriptMode options = ModeAuto"
    and "\<not> canRunYtDlp options"
    and "fetchTranscript deps context options = (calls, res)"
  shows "CalledYtDlp \<notin> set calls
       \<and> (\<forall>result. res = Inr result \<longrightarrow> SrcYtDlp \<notin> set (attemptedProviders result))"
  using assms
  by (auto simp: fetchTranscript_def webStage_def captionTracksStage_def apifyStage_def
      ytDlpStage_def found_def neverTried_def Let_def
      split: option.splits if_splits)

text \<open>
  The Apify stage has no such test. In mode \<open>auto\<close>, when the page has html and a video id
  and neither youtubei nor the caption tracks yield a text, the result records \<open>apify\<close> and
  the Apify fetcher has been called with the configured token, whether or not there is one.
\<close>

lemma fetchTranscript_auto_enters_apify:
  assumes "youtubeTranscriptMode options = ModeAuto"
    and "truthy (html context)"
    and "effectiveVideoId deps context = Some videoId"
    and "\<forall>config. extractYoutubeiTranscriptConfig deps (keyOf (html context)) = Some config \<longrightarrow>
           \<not> truthy (fetchTranscriptFromTranscriptEndpoint deps config (url context))"
    and "\<not> truthy (fetchTranscriptFromCaptionTracks deps (keyOf (html context)) (url context) videoId)"
  shows "\<exists>calls result. fetchTranscript deps context options = (calls, Inr result)
       \<and> SrcApify \<in> set (attemptedProviders result)
       \<and> CalledApify (apifyApiToken options) \<in> set calls"
  using assms
  by (auto simp: fetchTranscript_def webStage_def captionTracksStage_def apifyStage_def
      ytDlpStage_def found_def canRunYtDlp_def hasYtDlpCredentials_def Let_def
      split: option.splits if_splits)

end
